theory Spec2Isabelle
  imports Complex_Main "HOL-Library.Char_ord" "HOL-Library.List_Lexorder" "HOL-Library.Multiset"
begin

section \<open>Python strings and values\<close>

text \<open>
  Strings are \<^typ>\<open>string\<close> (lists of bytes).  The model covers ASCII text, which is what
  trading-pair symbols, exchange ids and time frames are made of: \<open>str.upper\<close> and
  \<open>str.lower\<close> change the 26 letters and nothing else.  Python compares strings by code
  point, which is the lexicographic order of \<^typ>\<open>char list\<close>.
\<close>

definition upper_char :: "char \<Rightarrow> char" where
  "upper_char c =
     (if CHR ''a'' \<le> c \<and> c \<le> CHR ''z'' then char_of (of_char c - (32::nat)) else c)"

definition lower_char :: "char \<Rightarrow> char" where
  "lower_char c =
     (if CHR ''A'' \<le> c \<and> c \<le> CHR ''Z'' then char_of (of_char c + (32::nat)) else c)"

definition upper :: "string \<Rightarrow> string" where
  "upper s = map upper_char s"

definition lower :: "string \<Rightarrow> string" where
  "lower s = map lower_char s"

text \<open>\<open>q in s\<close> on strings: \<open>q\<close> occurs in \<open>s\<close> as a contiguous run.\<close>

fun startswith :: "string \<Rightarrow> string \<Rightarrow> bool" where
  "startswith s [] = True"
| "startswith [] (q # qs) = False"
| "startswith (c # cs) (q # qs) = (c = q \<and> startswith cs qs)"

fun str_in :: "string \<Rightarrow> string \<Rightarrow> bool" where
  "str_in q [] = (q = [])"
| "str_in q (c # cs) = (startswith (c # cs) q \<or> str_in q cs)"

text \<open>\<open>sep.join(parts)\<close>.\<close>

fun join :: "string \<Rightarrow> string list \<Rightarrow> string" where
  "join sep [] = []"
| "join sep [x] = x"
| "join sep (x # y # ys) = x @ sep @ join sep (y # ys)"

text \<open>\<open>str(n)\<close> of an integer: decimal digits, a minus sign for a negative number.\<close>

definition digit_char :: "nat \<Rightarrow> char" where
  "digit_char d = char_of (48 + d)"

function str_nat :: "nat \<Rightarrow> string" where
  "str_nat n = (if n < 10 then [digit_char n] else str_nat (n div 10) @ [digit_char (n mod 10)])"
  by pat_completeness auto
termination
  by (relation "measure (\<lambda>n. n)") auto

definition str_int :: "int \<Rightarrow> string" where
  "str_int i = (if i < 0 then CHR ''-'' # str_nat (nat (- i)) else str_nat (nat i))"

text \<open>
  The values the cache parameters take: strings (exchange id, symbol, time frame) and
  integers (limit).  \<open>py_str\<close> is what the f-string \<open>{v}\<close> renders.
\<close>

datatype pyval = PStr string | PInt int

fun py_str :: "pyval \<Rightarrow> string" where
  "py_str (PStr s) = s"
| "py_str (PInt i) = str_int i"

text \<open>\<open>int(x)\<close> of a float truncates towards zero.\<close>

definition py_int :: "real \<Rightarrow> int" where
  "py_int x = (if 0 \<le> x then \<lfloor>x\<rfloor> else \<lceil>x\<rceil>)"

text \<open>\<open>a or b\<close> on optional numbers: \<open>None\<close> and zero are falsy.\<close>

definition py_or :: "real option \<Rightarrow> real option \<Rightarrow> real option" where
  "py_or a b = (case a of None \<Rightarrow> b | Some x \<Rightarrow> if x = 0 then b else Some x)"

text \<open>\<open>xs[:n]\<close>: a negative bound counts from the end.\<close>

definition py_take :: "int \<Rightarrow> 'a list \<Rightarrow> 'a list" where
  "py_take n xs = (if 0 \<le> n then take (nat n) xs else take (length xs - nat (- n)) xs)"

section \<open>Data models\<close>

datatype TimeFrame = M1 | M5 | M15 | M30 | H1 | H4 | D1 | W1 | MO1

fun timeframe_value :: "TimeFrame \<Rightarrow> string" where
  "timeframe_value M1 = ''1m''"
| "timeframe_value M5 = ''5m''"
| "timeframe_value M15 = ''15m''"
| "timeframe_value M30 = ''30m''"
| "timeframe_value H1 = ''1h''"
| "timeframe_value H4 = ''4h''"
| "timeframe_value D1 = ''1d''"
| "timeframe_value W1 = ''1w''"
| "timeframe_value MO1 = ''1M''"

datatype Exchange = BINANCE | COINBASE | KRAKEN | BITFINEX | HUOBI

fun exchange_value :: "Exchange \<Rightarrow> string" where
  "exchange_value BINANCE = ''binance''"
| "exchange_value COINBASE = ''coinbase''"
| "exchange_value KRAKEN = ''kraken''"
| "exchange_value BITFINEX = ''bitfinex''"
| "exchange_value HUOBI = ''huobi''"

definition all_exchanges :: "Exchange list" where
  "all_exchanges = [BINANCE, COINBASE, KRAKEN, BITFINEX, HUOBI]"

text \<open>
  Every exception the engine lets out, by the place that raises it:
  \<open>ValidationError\<close> (pydantic, request construction), the \<open>RuntimeError\<close>s of the read
  paths (\<open>NetworkFailure\<close>: "Network error", \<open>ExchangeFailure\<close>: "Exchange error",
  \<open>UnexpectedFailure\<close>: "Unexpected error", \<open>OrderbookFailure\<close>: "Failed to fetch
  orderbook", \<open>OHLCVFailure\<close>: "Failed to fetch OHLCV data", \<open>SearchFailure\<close>: "Failed to
  search symbols"), \<open>NoData\<close> (the \<open>ValueError\<close> "No data available for statistics") and
  Python's \<open>ZeroDivisionError\<close> and \<open>OverflowError\<close>.
\<close>

datatype error =
    ValidationError | NetworkFailure | ExchangeFailure | UnexpectedFailure
  | OrderbookFailure | OHLCVFailure | SearchFailure | NoData | ZeroDivisionError
  | OverflowError

text \<open>What a call into the exchange library can raise.\<close>

datatype fault = NetworkError | ExchangeError | OtherError

record MarketDataRequest =
  symbol :: string
  exchange :: Exchange

record HistoricalDataRequest = MarketDataRequest +
  timeframe :: TimeFrame
  limit :: int
  since :: "real option"

text \<open>The field validator of \<open>MarketDataRequest.symbol\<close>.\<close>

definition validate_symbol :: "string \<Rightarrow> error + string" where
  "validate_symbol v = (if CHR ''/'' \<notin> set v then Inl ValidationError else Inr (upper v))"

definition new_MarketDataRequest :: "string \<Rightarrow> Exchange \<Rightarrow> error + MarketDataRequest" where
  "new_MarketDataRequest smb ex =
     (case validate_symbol smb of
        Inl err \<Rightarrow> Inl err
      | Inr v \<Rightarrow> Inr \<lparr>symbol = v, exchange = ex\<rparr>)"

record TickerData =
  t_symbol :: string
  t_exchange :: string
  t_timestamp :: real
  t_last :: real
  t_bid :: real
  t_ask :: real
  t_high :: real
  t_low :: real
  t_volume :: real
  t_change_24h :: "real option"

record OHLCVData =
  c_timestamp :: real
  c_open :: real
  c_high :: real
  c_low :: real
  c_close :: real
  c_volume :: real

record OrderBookData =
  ob_symbol :: string
  ob_exchange :: string
  ob_timestamp :: real
  ob_bids :: "real list list"
  ob_asks :: "real list list"

section \<open>The cache\<close>

subsection \<open>The TTL cache of the cachetools library\<close>

text \<open>
  \<open>TTLCache\<close> comes from the cachetools package, which the repository imports and does not
  contain.  The model follows the library's documented behaviour: an LRU cache with a
  per-item time to live.  A link per item records when it expires; the links stand in
  the order in which the items were last stored (\<open>entries\<close>, oldest first), and a
  second order records use (\<open>lru\<close>, least recently used first): storing an item and
  reading a live item both move its key to the end.  Every item has size 1.
\<close>

record ('k, 'v) TTLCache =
  entries :: "('k \<times> 'v \<times> real) list"
  lru :: "'k list"

definition empty_cache :: "('k, 'v) TTLCache" where
  "empty_cache = \<lparr>entries = [], lru = []\<rparr>"

definition cache_keys :: "('k, 'v) TTLCache \<Rightarrow> 'k list" where
  "cache_keys c = map fst (entries c)"

definition cache_len :: "('k, 'v) TTLCache \<Rightarrow> nat" where
  "cache_len c = length (entries c)"

text \<open>\<open>key in cache\<close>: the key has a link and the link has not expired.\<close>

definition cache_contains :: "real \<Rightarrow> 'k \<Rightarrow> ('k, 'v) TTLCache \<Rightarrow> bool" where
  "cache_contains now k c =
     (case map_of (entries c) k of None \<Rightarrow> False | Some (v, expires) \<Rightarrow> now < expires)"

text \<open>\<open>cache.get(key)\<close>: a live item is returned and becomes the most recently used.\<close>

definition cache_get :: "real \<Rightarrow> 'k \<Rightarrow> ('k, 'v) TTLCache \<Rightarrow> 'v option \<times> ('k, 'v) TTLCache" where
  "cache_get now k c =
     (if cache_contains now k c
      then (map_option fst (map_of (entries c) k), c\<lparr>lru := removeAll k (lru c) @ [k]\<rparr>)
      else (None, c))"

text \<open>\<open>expire(time)\<close>: drop links from the old end while they have expired.\<close>

definition expire :: "real \<Rightarrow> ('k, 'v) TTLCache \<Rightarrow> ('k, 'v) TTLCache" where
  "expire now c =
     (let dead = takeWhile (\<lambda>(k, v, expires). \<not> now < expires) (entries c)
      in \<lparr>entries = dropWhile (\<lambda>(k, v, expires). \<not> now < expires) (entries c),
          lru = filter (\<lambda>k. k \<notin> fst ` set dead) (lru c)\<rparr>)"

text \<open>\<open>popitem()\<close> after \<open>expire\<close>: remove the least recently used item.\<close>

definition popitem :: "('k, 'v) TTLCache \<Rightarrow> ('k, 'v) TTLCache" where
  "popitem c =
     (case lru c of
        [] \<Rightarrow> c
      | k # ks \<Rightarrow> \<lparr>entries = filter (\<lambda>e. fst e \<noteq> k) (entries c), lru = removeAll k ks\<rparr>)"

text \<open>The loop \<open>while currsize + size > maxsize: popitem()\<close> of \<open>Cache.__setitem__\<close>.\<close>

function make_room :: "nat \<Rightarrow> ('k, 'v) TTLCache \<Rightarrow> ('k, 'v) TTLCache" where
  "make_room maxsize c =
     (if maxsize < cache_len c + 1 \<and> lru c \<noteq> [] then make_room maxsize (popitem c) else c)"
  by pat_completeness auto
termination
  by (relation "measure (\<lambda>(m, c). length (lru c))")
     (auto simp: popitem_def split: list.splits intro: le_imp_less_Suc length_removeAll_less_eq)

text \<open>
  \<open>cache[key] = value\<close> at time \<open>now\<close>: expired items go first; a new key makes room; the
  item is stored with expiry \<open>now + ttl\<close>, last in both orders.
\<close>

definition cache_set ::
  "nat \<Rightarrow> real \<Rightarrow> real \<Rightarrow> 'k \<Rightarrow> 'v \<Rightarrow> ('k, 'v) TTLCache \<Rightarrow> ('k, 'v) TTLCache" where
  "cache_set maxsize ttl now k v c =
     (let c1 = expire now c;
          c2 = (if k \<in> set (cache_keys c1) then c1 else make_room maxsize c1)
      in \<lparr>entries = filter (\<lambda>e. fst e \<noteq> k) (entries c2) @ [(k, v, now + ttl)],
          lru = removeAll k (lru c2) @ [k]\<rparr>)"

subsection \<open>Cache keys\<close>

text \<open>
  \<open>_generate_key(prefix, **kwargs)\<close>.  The keyword arguments are a dictionary: a list of
  pairs in insertion order with distinct names.  \<open>hashlib.md5\<close> is taken as a parameter
  \<open>md5\<close>, the map from a text to the hexadecimal digest of its encoding.
\<close>

definition key_str :: "string \<Rightarrow> (string \<times> pyval) list \<Rightarrow> string" where
  "key_str prefix kwargs =
     prefix @ '':'' @ join '':'' (map (\<lambda>(k, v). k @ ''='' @ py_str v) (sort_key fst kwargs))"

definition generate_key :: "(string \<Rightarrow> string) \<Rightarrow> string \<Rightarrow> (string \<times> pyval) list \<Rightarrow> string" where
  "generate_key md5 prefix kwargs = md5 (key_str prefix kwargs)"

subsection \<open>The cache manager\<close>

record CacheManager =
  ticker_cache :: "(string, TickerData) TTLCache"
  ohlcv_cache :: "(string, OHLCVData list) TTLCache"
  orderbook_cache :: "(string, OrderBookData) TTLCache"

definition new_CacheManager :: CacheManager where
  "new_CacheManager =
     \<lparr>ticker_cache = empty_cache, ohlcv_cache = empty_cache, orderbook_cache = empty_cache\<rparr>"

definition ticker_key :: "(string \<Rightarrow> string) \<Rightarrow> string \<Rightarrow> string \<Rightarrow> string" where
  "ticker_key md5 ex smb = generate_key md5 ''ticker'' [(''exchange'', PStr ex), (''symbol'', PStr smb)]"

definition ohlcv_key :: "(string \<Rightarrow> string) \<Rightarrow> string \<Rightarrow> string \<Rightarrow> string \<Rightarrow> int \<Rightarrow> string" where
  "ohlcv_key md5 ex smb tf lmt =
     generate_key md5 ''ohlcv''
       [(''exchange'', PStr ex), (''symbol'', PStr smb), (''timeframe'', PStr tf), (''limit'', PInt lmt)]"

definition cm_get_ticker ::
  "(string \<Rightarrow> string) \<Rightarrow> real \<Rightarrow> string \<Rightarrow> string \<Rightarrow> CacheManager \<Rightarrow> TickerData option \<times> CacheManager" where
  "cm_get_ticker md5 now ex smb cm =
     (case cache_get now (ticker_key md5 ex smb) (ticker_cache cm) of
        (r, c) \<Rightarrow> (r, cm\<lparr>ticker_cache := c\<rparr>))"

definition cm_set_ticker ::
  "(string \<Rightarrow> string) \<Rightarrow> real \<Rightarrow> string \<Rightarrow> string \<Rightarrow> TickerData \<Rightarrow> CacheManager \<Rightarrow> CacheManager" where
  "cm_set_ticker md5 now ex smb data cm =
     cm\<lparr>ticker_cache := cache_set 1000 10 now (ticker_key md5 ex smb) data (ticker_cache cm)\<rparr>"

definition cm_get_ohlcv ::
  "(string \<Rightarrow> string) \<Rightarrow> real \<Rightarrow> string \<Rightarrow> string \<Rightarrow> string \<Rightarrow> int \<Rightarrow> CacheManager
     \<Rightarrow> OHLCVData list option \<times> CacheManager" where
  "cm_get_ohlcv md5 now ex smb tf lmt cm =
     (case cache_get now (ohlcv_key md5 ex smb tf lmt) (ohlcv_cache cm) of
        (r, c) \<Rightarrow> (r, cm\<lparr>ohlcv_cache := c\<rparr>))"

definition cm_set_ohlcv ::
  "(string \<Rightarrow> string) \<Rightarrow> real \<Rightarrow> string \<Rightarrow> string \<Rightarrow> string \<Rightarrow> int \<Rightarrow> OHLCVData list \<Rightarrow> CacheManager
     \<Rightarrow> CacheManager" where
  "cm_set_ohlcv md5 now ex smb tf lmt data cm =
     cm\<lparr>ohlcv_cache := cache_set 500 60 now (ohlcv_key md5 ex smb tf lmt) data (ohlcv_cache cm)\<rparr>"

definition clear_all :: "CacheManager \<Rightarrow> CacheManager" where
  "clear_all cm = new_CacheManager"

section \<open>The exchange side\<close>

text \<open>
  The exchange library (ccxt) is outside the repository.  What it answers is given by
  an environment: for each kind of call, the answer as a function of the call's
  arguments and of the number of calls made before it, so that the same call can
  succeed once and fail later.  \<open>elapsed\<close> is the time the n-th call takes.  The
  environment also carries \<open>hashlib.md5\<close> and Python's floating-point arithmetic.
\<close>

record raw_ticker =
  rt_timestamp :: "real option"
  rt_last :: "real option"
  rt_bid :: "real option"
  rt_ask :: "real option"
  rt_high :: "real option"
  rt_low :: "real option"
  rt_baseVolume :: "real option"
  rt_percentage :: "real option"

record raw_orderbook =
  ro_timestamp :: "real option"
  ro_bids :: "real list list"
  ro_asks :: "real list list"

type_synonym raw_candle = "real option list"

text \<open>
  The dictionary that \<open>get_price_statistics\<close> returns holds Python floats, computed with
  rounding at every step, with infinities and NaN, and with the \<open>OverflowError\<close> of
  \<open>**\<close>.  Floating-point arithmetic is outside this model: the dictionary is a value of
  an unspecified type, and what Python computes from a sequence of candles (a
  dictionary, or the exception raised on the way) is given by the environment.
\<close>

typedecl statistics

record env =
  md5_hexdigest :: "string \<Rightarrow> string"
  float_statistics :: "HistoricalDataRequest \<Rightarrow> OHLCVData list \<Rightarrow> error + statistics"
  io_load_markets :: "string \<Rightarrow> nat \<Rightarrow> fault + string list"
  io_fetch_ticker :: "string \<Rightarrow> string \<Rightarrow> nat \<Rightarrow> fault + raw_ticker"
  io_fetch_order_book :: "string \<Rightarrow> string \<Rightarrow> int \<Rightarrow> nat \<Rightarrow> fault + raw_orderbook"
  io_fetch_ohlcv :: "string \<Rightarrow> string \<Rightarrow> string \<Rightarrow> int option \<Rightarrow> int \<Rightarrow> nat \<Rightarrow> fault + raw_candle list"
  elapsed :: "nat \<Rightarrow> real"

datatype upstream_call =
    LoadMarkets string
  | FetchTicker string string
  | FetchOrderBook string string int
  | FetchOHLCV string string string "int option" int

text \<open>
  The engine.  \<open>exchanges\<close> is the registry of the exchange manager: an exchange id is
  mapped to its handle's \<open>markets\<close> attribute (\<open>None\<close> until the catalogue is loaded, then
  the catalogue's symbols).  \<open>clock\<close> is the reading of the monotonic timer and \<open>calls\<close>
  the log of the calls made into the exchange library.
\<close>

record server =
  cache :: CacheManager
  exchanges :: "string \<rightharpoonup> string list option"
  request_count :: nat
  error_count :: nat
  clock :: real
  calls :: "upstream_call list"

definition new_server :: "real \<Rightarrow> server" where
  "new_server t0 =
     \<lparr>cache = new_CacheManager,
      exchanges = map_of (map (\<lambda>ex. (exchange_value ex, None)) all_exchanges),
      request_count = 0, error_count = 0, clock = t0, calls = []\<rparr>"

text \<open>One call into the exchange library: it is logged and the clock moves on.\<close>

definition upstream :: "env \<Rightarrow> upstream_call \<Rightarrow> server \<Rightarrow> server" where
  "upstream e c s = s\<lparr>clock := clock s + elapsed e (length (calls s)), calls := calls s @ [c]\<rparr>"

text \<open>\<open>get_exchange\<close>: \<open>None\<close> stands for the \<open>ValueError\<close> of an unknown exchange.\<close>

definition get_exchange :: "server \<Rightarrow> string \<Rightarrow> string list option option" where
  "get_exchange s exchange_name = exchanges s (lower exchange_name)"

text \<open>\<open>not exchange.markets\<close>: no catalogue, or an empty one.\<close>

definition markets_falsy :: "string list option \<Rightarrow> bool" where
  "markets_falsy m = (case m of None \<Rightarrow> True | Some cat \<Rightarrow> cat = [])"

definition load_markets :: "env \<Rightarrow> string \<Rightarrow> server \<Rightarrow> (fault + unit) \<times> server" where
  "load_markets e exchange_name s =
     (case get_exchange s exchange_name of
        None \<Rightarrow> (Inl OtherError, s)
      | Some m \<Rightarrow>
          if markets_falsy m then
            (case io_load_markets e (lower exchange_name) (length (calls s)) of
               Inl f \<Rightarrow> (Inl f, upstream e (LoadMarkets (lower exchange_name)) s)
             | Inr cat \<Rightarrow>
                 (Inr (), (upstream e (LoadMarkets (lower exchange_name)) s)
                            \<lparr>exchanges := (exchanges s)(lower exchange_name \<mapsto> Some cat)\<rparr>))
          else (Inr (), s))"

section \<open>The read paths\<close>

text \<open>
  Building \<open>TickerData\<close> from the library's answer; \<open>None\<close> stands for the exception of
  a missing timestamp (\<open>None / 1000\<close>) or of a missing number in a \<open>float\<close> field.
\<close>

definition make_ticker :: "string \<Rightarrow> string \<Rightarrow> raw_ticker \<Rightarrow> TickerData option" where
  "make_ticker smb ex r =
     (case (rt_timestamp r, rt_last r, py_or (rt_bid r) (rt_last r), py_or (rt_ask r) (rt_last r),
            rt_high r, rt_low r, rt_baseVolume r) of
        (Some ts, Some la, Some bi, Some ak, Some hi, Some lo, Some vo) \<Rightarrow>
          Some \<lparr>t_symbol = smb, t_exchange = ex, t_timestamp = ts / 1000, t_last = la,
                t_bid = bi, t_ask = ak, t_high = hi, t_low = lo, t_volume = vo,
                t_change_24h = rt_percentage r\<rparr>
      | _ \<Rightarrow> None)"

text \<open>The body of the \<open>try\<close> of \<open>get_ticker\<close>; \<open>Inl\<close> is the exception it ends with.\<close>

definition ticker_try :: "env \<Rightarrow> MarketDataRequest \<Rightarrow> server \<Rightarrow> (fault + TickerData) \<times> server" where
  "ticker_try e request s =
     (let ex = exchange_value (exchange request) in
      case get_exchange s ex of
        None \<Rightarrow> (Inl OtherError, s)
      | Some m \<Rightarrow>
          (case load_markets e ex s of
             (Inl f, s1) \<Rightarrow> (Inl f, s1)
           | (Inr u, s1) \<Rightarrow>
               let s2 = upstream e (FetchTicker ex (symbol request)) s1 in
               (case io_fetch_ticker e ex (symbol request) (length (calls s1)) of
                  Inl f \<Rightarrow> (Inl f, s2)
                | Inr raw \<Rightarrow>
                    (case make_ticker (symbol request) ex raw of
                       None \<Rightarrow> (Inl OtherError, s2)
                     | Some ticker_data \<Rightarrow>
                         (Inr ticker_data,
                          s2\<lparr>cache := cm_set_ticker (md5_hexdigest e) (clock s2) ex (symbol request)
                                         ticker_data (cache s2)\<rparr>)))))"

fun ticker_error :: "fault \<Rightarrow> error" where
  "ticker_error NetworkError = NetworkFailure"
| "ticker_error ExchangeError = ExchangeFailure"
| "ticker_error OtherError = UnexpectedFailure"

text \<open>
  \<open>get_ticker\<close>.  The test \<open>if cached:\<close> is on a pydantic model, which is always truthy,
  so every value the cache returns is a hit.
\<close>

definition get_ticker :: "env \<Rightarrow> MarketDataRequest \<Rightarrow> server \<Rightarrow> (error + TickerData) \<times> server" where
  "get_ticker e request s =
     (let s0 = s\<lparr>request_count := request_count s + 1\<rparr> in
      case cm_get_ticker (md5_hexdigest e) (clock s0) (exchange_value (exchange request))
             (symbol request) (cache s0) of
        (Some cached, cm) \<Rightarrow> (Inr cached, s0\<lparr>cache := cm\<rparr>)
      | (None, cm) \<Rightarrow>
          (case ticker_try e request (s0\<lparr>cache := cm\<rparr>) of
             (Inr ticker_data, s1) \<Rightarrow> (Inr ticker_data, s1)
           | (Inl f, s1) \<Rightarrow> (Inl (ticker_error f), s1\<lparr>error_count := error_count s1 + 1\<rparr>)))"

definition make_orderbook :: "string \<Rightarrow> string \<Rightarrow> int \<Rightarrow> raw_orderbook \<Rightarrow> OrderBookData option" where
  "make_orderbook smb ex lmt r =
     (case ro_timestamp r of
        None \<Rightarrow> None
      | Some ts \<Rightarrow>
          Some \<lparr>ob_symbol = smb, ob_exchange = ex, ob_timestamp = ts / 1000,
                ob_bids = py_take lmt (ro_bids r), ob_asks = py_take lmt (ro_asks r)\<rparr>)"

definition orderbook_try ::
  "env \<Rightarrow> MarketDataRequest \<Rightarrow> int \<Rightarrow> server \<Rightarrow> (fault + OrderBookData) \<times> server" where
  "orderbook_try e request lmt s =
     (let ex = exchange_value (exchange request) in
      case get_exchange s ex of
        None \<Rightarrow> (Inl OtherError, s)
      | Some m \<Rightarrow>
          (case load_markets e ex s of
             (Inl f, s1) \<Rightarrow> (Inl f, s1)
           | (Inr u, s1) \<Rightarrow>
               let s2 = upstream e (FetchOrderBook ex (symbol request) lmt) s1 in
               (case io_fetch_order_book e ex (symbol request) lmt (length (calls s1)) of
                  Inl f \<Rightarrow> (Inl f, s2)
                | Inr raw \<Rightarrow>
                    (case make_orderbook (symbol request) ex lmt raw of
                       None \<Rightarrow> (Inl OtherError, s2)
                     | Some ob \<Rightarrow> (Inr ob, s2)))))"

definition get_orderbook ::
  "env \<Rightarrow> MarketDataRequest \<Rightarrow> int \<Rightarrow> server \<Rightarrow> (error + OrderBookData) \<times> server" where
  "get_orderbook e request lmt s =
     (let s0 = s\<lparr>request_count := request_count s + 1\<rparr> in
      case orderbook_try e request lmt s0 of
        (Inr ob, s1) \<Rightarrow> (Inr ob, s1)
      | (Inl f, s1) \<Rightarrow> (Inl OrderbookFailure, s1\<lparr>error_count := error_count s1 + 1\<rparr>))"

text \<open>
  One candle \<open>[timestamp, open, high, low, close, volume]\<close>; \<open>None\<close> stands for the
  exception of a short candle or of a missing number.
\<close>

definition make_candle :: "raw_candle \<Rightarrow> OHLCVData option" where
  "make_candle candle =
     (case candle of
        Some ts # Some op # Some hi # Some lo # Some cl # Some vo # rest \<Rightarrow>
          Some \<lparr>c_timestamp = ts / 1000, c_open = op, c_high = hi, c_low = lo, c_close = cl,
                c_volume = vo\<rparr>
      | _ \<Rightarrow> None)"

fun make_candles :: "raw_candle list \<Rightarrow> OHLCVData list option" where
  "make_candles [] = Some []"
| "make_candles (candle # rest) =
     (case make_candle candle of
        None \<Rightarrow> None
      | Some c \<Rightarrow> (case make_candles rest of None \<Rightarrow> None | Some cs \<Rightarrow> Some (c # cs)))"

definition ohlcv_try ::
  "env \<Rightarrow> HistoricalDataRequest \<Rightarrow> server \<Rightarrow> (fault + OHLCVData list) \<times> server" where
  "ohlcv_try e request s =
     (let ex = exchange_value (exchange request);
          tf = timeframe_value (timeframe request) in
      case get_exchange s ex of
        None \<Rightarrow> (Inl OtherError, s)
      | Some m \<Rightarrow>
          (case load_markets e ex s of
             (Inl f, s1) \<Rightarrow> (Inl f, s1)
           | (Inr u, s1) \<Rightarrow>
               let since_ms = map_option (\<lambda>t. py_int (t * 1000)) (since request);
                   s2 = upstream e (FetchOHLCV ex (symbol request) tf since_ms (limit request)) s1 in
               (case io_fetch_ohlcv e ex (symbol request) tf since_ms (limit request)
                       (length (calls s1)) of
                  Inl f \<Rightarrow> (Inl f, s2)
                | Inr ohlcv \<Rightarrow>
                    (case make_candles ohlcv of
                       None \<Rightarrow> (Inl OtherError, s2)
                     | Some ohlcv_data \<Rightarrow>
                         (Inr ohlcv_data,
                          s2\<lparr>cache := cm_set_ohlcv (md5_hexdigest e) (clock s2) ex (symbol request)
                                         tf (limit request) ohlcv_data (cache s2)\<rparr>)))))"

text \<open>
  \<open>get_ohlcv\<close>.  Here the test \<open>if cached:\<close> is on a list, and an empty list is falsy:
  a cached empty list is not returned.
\<close>

definition get_ohlcv ::
  "env \<Rightarrow> HistoricalDataRequest \<Rightarrow> server \<Rightarrow> (error + OHLCVData list) \<times> server" where
  "get_ohlcv e request s =
     (let s0 = s\<lparr>request_count := request_count s + 1\<rparr> in
      case cm_get_ohlcv (md5_hexdigest e) (clock s0) (exchange_value (exchange request))
             (symbol request) (timeframe_value (timeframe request)) (limit request) (cache s0) of
        (Some (c # cs), cm) \<Rightarrow> (Inr (c # cs), s0\<lparr>cache := cm\<rparr>)
      | (cached, cm) \<Rightarrow>
          (case ohlcv_try e request (s0\<lparr>cache := cm\<rparr>) of
             (Inr ohlcv_data, s1) \<Rightarrow> (Inr ohlcv_data, s1)
           | (Inl f, s1) \<Rightarrow> (Inl OHLCVFailure, s1\<lparr>error_count := error_count s1 + 1\<rparr>)))"

section \<open>Multi-exchange queries\<close>

definition safe_get_ticker :: "env \<Rightarrow> MarketDataRequest \<Rightarrow> server \<Rightarrow> TickerData option \<times> server" where
  "safe_get_ticker e request s =
     (case get_ticker e request s of
        (Inr t, s1) \<Rightarrow> (Some t, s1)
      | (Inl err, s1) \<Rightarrow> (None, s1))"

text \<open>The loop that builds one request per exchange; a request that fails validation ends it.\<close>

fun build_requests :: "string \<Rightarrow> Exchange list \<Rightarrow> error + MarketDataRequest list" where
  "build_requests smb [] = Inr []"
| "build_requests smb (ex # exs) =
     (case new_MarketDataRequest smb ex of
        Inl err \<Rightarrow> Inl err
      | Inr request \<Rightarrow>
          (case build_requests smb exs of
             Inl err \<Rightarrow> Inl err
           | Inr requests \<Rightarrow> Inr (request # requests)))"

text \<open>
  \<open>asyncio.gather\<close> over the wrapped sub-queries, run here one after the other in the
  order of the list; each returns its result or \<open>None\<close>.
\<close>

fun gather :: "env \<Rightarrow> MarketDataRequest list \<Rightarrow> server \<Rightarrow> TickerData option list \<times> server" where
  "gather e [] s = ([], s)"
| "gather e (request # requests) s =
     (case safe_get_ticker e request s of
        (r, s1) \<Rightarrow> (case gather e requests s1 of (rs, s2) \<Rightarrow> (r # rs, s2)))"

text \<open>The dictionary comprehension: results that are not \<open>None\<close>, a later one replacing an earlier one.\<close>

fun collect :: "(Exchange \<times> TickerData option) list \<Rightarrow> (string \<rightharpoonup> TickerData) \<Rightarrow> (string \<rightharpoonup> TickerData)" where
  "collect [] m = m"
| "collect ((ex, None) # rest) m = collect rest m"
| "collect ((ex, Some t) # rest) m = collect rest (m(exchange_value ex \<mapsto> t))"

definition get_multi_exchange_ticker ::
  "env \<Rightarrow> string \<Rightarrow> Exchange list option \<Rightarrow> server \<Rightarrow> (error + (string \<rightharpoonup> TickerData)) \<times> server" where
  "get_multi_exchange_ticker e smb exs s =
     (let exchange_list = (case exs of None \<Rightarrow> all_exchanges | Some l \<Rightarrow> l) in
      case build_requests smb exchange_list of
        Inl err \<Rightarrow> (Inl err, s)
      | Inr tasks \<Rightarrow>
          (case gather e tasks s of
             (results, s1) \<Rightarrow> (Inr (collect (zip exchange_list results) Map.empty), s1)))"

section \<open>Price analytics\<close>

text \<open>
  The part of \<open>get_price_statistics\<close> after the fetch.  An empty sequence is refused
  before anything is computed.  The dictionary divides by \<open>prices[0]\<close>, which raises
  \<open>ZeroDivisionError\<close> when the first close is zero (no step before that division can
  raise).  Everything else is floating-point arithmetic, which the environment answers.
\<close>

definition compute_statistics ::
  "env \<Rightarrow> HistoricalDataRequest \<Rightarrow> OHLCVData list \<Rightarrow> error + statistics" where
  "compute_statistics e request ohlcv_data =
     (if ohlcv_data = [] then Inl NoData
      else if c_close (hd ohlcv_data) = 0 then Inl ZeroDivisionError
      else float_statistics e request ohlcv_data)"

definition get_price_statistics ::
  "env \<Rightarrow> HistoricalDataRequest \<Rightarrow> server \<Rightarrow> (error + statistics) \<times> server" where
  "get_price_statistics e request s =
     (case get_ohlcv e request s of
        (Inl err, s1) \<Rightarrow> (Inl err, s1)
      | (Inr ohlcv_data, s1) \<Rightarrow> (compute_statistics e request ohlcv_data, s1))"

section \<open>Utility methods\<close>

definition search_symbols :: "env \<Rightarrow> string \<Rightarrow> string \<Rightarrow> server \<Rightarrow> (error + string list) \<times> server" where
  "search_symbols e query exchange_name s =
     (case get_exchange s exchange_name of
        None \<Rightarrow> (Inl SearchFailure, s)
      | Some m \<Rightarrow>
          (case load_markets e exchange_name s of
             (Inl f, s1) \<Rightarrow> (Inl SearchFailure, s1)
           | (Inr u, s1) \<Rightarrow>
               (case get_exchange s1 exchange_name of
                  Some (Some markets) \<Rightarrow>
                    (Inr (take 50 (sort (filter (str_in (upper query)) markets))), s1)
                | _ \<Rightarrow> (Inl SearchFailure, s1))))"

definition clear_cache :: "server \<Rightarrow> server" where
  "clear_cache s = s\<lparr>cache := clear_all (cache s)\<rparr>"

text \<open>The engine's operations as commands, to speak of every sequence of them.\<close>

datatype command =
    GetTicker MarketDataRequest
  | GetOrderbook MarketDataRequest int
  | GetOHLCV HistoricalDataRequest
  | GetMultiExchangeTicker string "Exchange list option"
  | GetPriceStatistics HistoricalDataRequest
  | SearchSymbols string string
  | ClearCache
  | Sleep real

fun exec :: "env \<Rightarrow> server \<Rightarrow> command \<Rightarrow> server" where
  "exec e s (GetTicker r) = snd (get_ticker e r s)"
| "exec e s (GetOrderbook r n) = snd (get_orderbook e r n s)"
| "exec e s (GetOHLCV r) = snd (get_ohlcv e r s)"
| "exec e s (GetMultiExchangeTicker smb exs) = snd (get_multi_exchange_ticker e smb exs s)"
| "exec e s (GetPriceStatistics r) = snd (get_price_statistics e r s)"
| "exec e s (SearchSymbols q n) = snd (search_symbols e q n s)"
| "exec e s ClearCache = clear_cache s"
| "exec e s (Sleep d) = s\<lparr>clock := clock s + d\<rparr>"

definition run :: "env \<Rightarrow> command list \<Rightarrow> server \<Rightarrow> server" where
  "run e cmds s = foldl (exec e) s cmds"




section \<open>Vocabulary of the properties\<close>

text \<open>
  Replacing the value of one parameter, two values being of the same Python type, and
  reading a decimal numeral back (used to show that \<open>str\<close> is one-to-one on integers).
\<close>

definition set_param :: "string \<Rightarrow> pyval \<Rightarrow> (string \<times> pyval) list \<Rightarrow> (string \<times> pyval) list" where
  "set_param k v kwargs = map (\<lambda>(k', v'). if k' = k then (k', v) else (k', v')) kwargs"

fun same_type :: "pyval \<Rightarrow> pyval \<Rightarrow> bool" where
  "same_type (PStr a) (PStr b) = True"
| "same_type (PInt a) (PInt b) = True"
| "same_type a b = False"

definition digits_value :: "string \<Rightarrow> nat" where
  "digits_value s = foldl (\<lambda>a c. 10 * a + (of_char c - 48)) 0 s"




text \<open>
  The calls that one \<open>get_orderbook\<close> adds to the log: none when the exchange is not
  registered, \<open>load_markets\<close> when the catalogue is missing, \<open>fetch_order_book\<close> when the
  catalogue is there or has just loaded.
\<close>

definition orderbook_calls :: "env \<Rightarrow> MarketDataRequest \<Rightarrow> int \<Rightarrow> server \<Rightarrow> upstream_call list" where
  "orderbook_calls e r n s =
     (let ex = exchange_value (exchange r) in
      case get_exchange s ex of
        None \<Rightarrow> []
      | Some m \<Rightarrow>
          if markets_falsy m then
            (case io_load_markets e (lower ex) (length (calls s)) of
               Inl f \<Rightarrow> [LoadMarkets (lower ex)]
             | Inr cat \<Rightarrow> [LoadMarkets (lower ex), FetchOrderBook ex (symbol r) n])
          else [FetchOrderBook ex (symbol r) n])"



definition expiry_of :: "('k, 'v) TTLCache \<Rightarrow> 'k \<Rightarrow> real option" where
  "expiry_of c k = map_option snd (map_of (entries c) k)"

section \<open>Example data\<close>

text \<open>
  A concrete environment to run the engine on: every exchange answers with the same
  ticker unless it is listed as down, every candle request answers with the given
  candles, and each call takes a tenth of a second.  The digest is a stand-in that
  returns its input, so that distinct texts have distinct digests.  No example reaches
  the floating-point arithmetic; its entry is a placeholder.
\<close>

definition demo_ticker :: raw_ticker where
  "demo_ticker =
     \<lparr>rt_timestamp = Some 1700000000000, rt_last = Some 50000, rt_bid = Some 49999,
      rt_ask = None, rt_high = Some 51000, rt_low = Some 49000, rt_baseVolume = Some 1000,
      rt_percentage = Some (5 / 2)\<rparr>"

definition demo_env :: "string list \<Rightarrow> raw_candle list \<Rightarrow> env" where
  "demo_env down candles =
     \<lparr>md5_hexdigest = (\<lambda>t. t),
      float_statistics = (\<lambda>request ohlcv_data. Inl OverflowError),
      io_load_markets = (\<lambda>ex n. Inr [''ETH/USDT'', ''BTC/USDT'']),
      io_fetch_ticker = (\<lambda>ex smb n. if ex \<in> set down then Inl NetworkError else Inr demo_ticker),
      io_fetch_order_book = (\<lambda>ex smb lmt n. Inr \<lparr>ro_timestamp = Some 1700000000000, ro_bids = [], ro_asks = []\<rparr>),
      io_fetch_ohlcv = (\<lambda>ex smb tf since_ms lmt n. Inr candles),
      elapsed = (\<lambda>n. 1 / 10)\<rparr>"

definition demo_request :: HistoricalDataRequest where
  "demo_request = \<lparr>symbol = ''BTC/USDT'', exchange = BINANCE, timeframe = H1, limit = 5, since = None\<rparr>"

definition flat_candles :: "raw_candle list" where
  "flat_candles =
     [[Some 1000, Some 0, Some 0, Some 0, Some 0, Some 0],
      [Some 2000, Some 0, Some 2, Some 0, Some 2, Some 7]]"

definition demo_loaded :: server where
  "demo_loaded = (new_server 0)\<lparr>exchanges :=
      (exchanges (new_server 0))(''binance'' \<mapsto> Some [''ETH/USDT'', ''BTC/USDT'', ''ETH/BTC'', ''BTC/EUR''])\<rparr>"

definition demo_ticker_request :: MarketDataRequest where
  "demo_ticker_request = \<lparr>symbol = ''BTC/USDT'', exchange = BINANCE\<rparr>"

definition demo_ticker_data :: "string \<Rightarrow> TickerData" where
  "demo_ticker_data ex =
     \<lparr>t_symbol = ''BTC/USDT'', t_exchange = ex, t_timestamp = 1700000000, t_last = 50000,
      t_bid = 49999, t_ask = 50000, t_high = 51000, t_low = 49000, t_volume = 1000,
      t_change_24h = Some (5 / 2)\<rparr>"

definition demo_s1 :: server where
  "demo_s1 = snd (get_ticker (demo_env [''coinbase''] []) \<lparr>symbol = ''BTC/USDT'', exchange = BINANCE\<rparr>
                  (new_server 0))"

definition demo_s2 :: server where
  "demo_s2 = snd (get_ticker (demo_env [''coinbase''] []) \<lparr>symbol = ''BTC/USDT'', exchange = COINBASE\<rparr>
                  demo_s1)"




definition demo_o1 :: server where
  "demo_o1 = snd (get_ohlcv (demo_env [] []) demo_request (new_server 0))"


definition demo_offline :: env where
  "demo_offline = (demo_env [] [])\<lparr>io_load_markets := (\<lambda>ex n. Inl NetworkError)\<rparr>"




section \<open>Evaluation rules\<close>

text \<open>
  The two loops are unfolded one step at a time, under their guard, so that the
  simplifier stops where the loop stops.
\<close>

declare make_room.simps [simp del]

declare str_nat.simps [simp del]

lemma make_room_fits: "cache_len c < maxsize \<Longrightarrow> make_room maxsize c = c"
  by (subst make_room.simps) simp


section \<open>Request validation\<close>

lemma upper_btc_usdt: "upper ''btc/usdt'' = ''BTC/USDT''"
  by code_simp

lemma upper_ABC: "upper ''A/B/C'' = ''A/B/C''"
  by code_simp

lemma count_list_0_iff: "count_list xs x = 0 \<longleftrightarrow> x \<notin> set xs"
  by (induction xs) auto

text \<open>
  Claim C8, as the code has it.  Constructing a \<open>MarketDataRequest\<close> with symbol \<open>s\<close>
  fails with a validation error exactly when \<open>s\<close> contains no \<open>/\<close> at all; with one
  separator or more it succeeds and the stored symbol is \<open>s\<close> in upper case.  So
  \<open>btc/usdt\<close> is stored as \<open>BTC/USDT\<close> and \<open>BTCUSDT\<close> is refused, before any I/O (the
  construction takes no engine state and returns none).
\<close>

theorem validate_symbol_accepts_any_separator:
  "(new_MarketDataRequest s ex = Inl ValidationError \<longleftrightarrow> count_list s (CHR ''/'') = 0)
   \<and> (1 \<le> count_list s (CHR ''/'') \<longrightarrow>
        new_MarketDataRequest s ex = Inr \<lparr>symbol = upper s, exchange = ex\<rparr>)
   \<and> new_MarketDataRequest ''btc/usdt'' ex = Inr \<lparr>symbol = ''BTC/USDT'', exchange = ex\<rparr>
   \<and> new_MarketDataRequest ''BTCUSDT'' ex = Inl ValidationError"
proof -
  have a: "new_MarketDataRequest s ex = Inl ValidationError \<longleftrightarrow> count_list s (CHR ''/'') = 0"
    by (simp add: new_MarketDataRequest_def validate_symbol_def count_list_0_iff)
  have b: "1 \<le> count_list s (CHR ''/'') \<longrightarrow>
        new_MarketDataRequest s ex = Inr \<lparr>symbol = upper s, exchange = ex\<rparr>"
    using count_list_0_iff[of s "CHR ''/''"]
    by (auto simp: new_MarketDataRequest_def validate_symbol_def)
  have c: "new_MarketDataRequest ''btc/usdt'' ex = Inr \<lparr>symbol = ''BTC/USDT'', exchange = ex\<rparr>"
    by (simp add: new_MarketDataRequest_def validate_symbol_def upper_btc_usdt)
  have d: "new_MarketDataRequest ''BTCUSDT'' ex = Inl ValidationError"
    by (simp add: new_MarketDataRequest_def validate_symbol_def)
  from a b c d show ?thesis by blast
qed

theorem validate_symbol_accepts_any_separator_witness:
  "1 \<le> count_list ''eth/btc/x'' (CHR ''/'')
   \<and> new_MarketDataRequest ''eth/btc/x'' KRAKEN = Inr \<lparr>symbol = upper ''eth/btc/x'', exchange = KRAKEN\<rparr>
   \<and> new_MarketDataRequest ''btc/usdt'' KRAKEN = Inr \<lparr>symbol = ''BTC/USDT'', exchange = KRAKEN\<rparr>
   \<and> new_MarketDataRequest ''BTCUSDT'' KRAKEN = Inl ValidationError"
  using validate_symbol_accepts_any_separator[of "''eth/btc/x''" KRAKEN] by simp

text \<open>
  A symbol with two separators is accepted, so "exactly one separator" is not what the
  validator checks.
\<close>

theorem validate_symbol_two_separators_counterexample:
  "count_list ''A/B/C'' (CHR ''/'') = 2
   \<and> new_MarketDataRequest ''A/B/C'' BINANCE = Inr \<lparr>symbol = ''A/B/C'', exchange = BINANCE\<rparr>"
  by (simp add: new_MarketDataRequest_def validate_symbol_def upper_ABC)

section \<open>Price statistics\<close>

text \<open>A run of \<open>get_ohlcv\<close> on a fresh engine whose exchange answers with no candle.\<close>

lemma lower_binance: "lower ''binance'' = ''binance''" by code_simp

lemma demo_get_ohlcv_empty: "fst (get_ohlcv (demo_env [] []) demo_request (new_server 0)) = Inr []"
  by (simp add: get_ohlcv_def cm_get_ohlcv_def cache_get_def cache_contains_def new_server_def
      new_CacheManager_def empty_cache_def ohlcv_try_def get_exchange_def lower_binance all_exchanges_def
      load_markets_def markets_falsy_def demo_env_def demo_request_def upstream_def Let_def)

text \<open>
  Claim C5.  When the sequence fetched for a statistics request is empty,
  \<open>get_price_statistics\<close> ends with the \<open>NoData\<close> error and does nothing else: the engine
  state is the one \<open>get_ohlcv\<close> left, and the outcome is not a division by zero.
\<close>

theorem statistics_empty_is_NoData:
  assumes "fst (get_ohlcv e request s) = Inr []"
  shows "get_price_statistics e request s = (Inl NoData, snd (get_ohlcv e request s))
         \<and> fst (get_price_statistics e request s) \<noteq> Inl ZeroDivisionError"
  using assms
  by (cases "get_ohlcv e request s") (simp add: get_price_statistics_def compute_statistics_def)

theorem statistics_empty_is_NoData_witness:
  "fst (get_ohlcv (demo_env [] []) demo_request (new_server 0)) = Inr []
   \<and> get_price_statistics (demo_env [] []) demo_request (new_server 0)
       = (Inl NoData, snd (get_ohlcv (demo_env [] []) demo_request (new_server 0)))
   \<and> fst (get_price_statistics (demo_env [] []) demo_request (new_server 0)) \<noteq> Inl ZeroDivisionError"
  using statistics_empty_is_NoData[OF demo_get_ohlcv_empty] demo_get_ohlcv_empty by simp

text \<open>
  A sequence whose first close is zero: the percent change divides by it, and the
  operation ends with \<open>ZeroDivisionError\<close>.
\<close>

lemma statistics_zero_first_close:
  "fst (get_ohlcv (demo_env [] flat_candles) demo_request (new_server 0))
     = Inr [\<lparr>c_timestamp = 1, c_open = 0, c_high = 0, c_low = 0, c_close = 0, c_volume = 0\<rparr>,
            \<lparr>c_timestamp = 2, c_open = 0, c_high = 2, c_low = 0, c_close = 2, c_volume = 7\<rparr>]
   \<and> fst (get_price_statistics (demo_env [] flat_candles) demo_request (new_server 0))
     = Inl ZeroDivisionError"
  by (simp add: get_price_statistics_def compute_statistics_def
      get_ohlcv_def cm_get_ohlcv_def cache_get_def cache_contains_def new_server_def
      new_CacheManager_def empty_cache_def ohlcv_try_def get_exchange_def lower_binance all_exchanges_def
      load_markets_def markets_falsy_def demo_env_def demo_request_def upstream_def Let_def
      flat_candles_def make_candle_def)

section \<open>Symbol search\<close>

lemma startswith_iff: "startswith s q \<longleftrightarrow> (\<exists>b. s = q @ b)"
  by (induction s q rule: startswith.induct) auto

lemma str_in_iff: "str_in q s \<longleftrightarrow> (\<exists>a b. s = a @ q @ b)"
proof (induction s)
  case Nil
  then show ?case by simp
next
  case (Cons c cs)
  show ?case
  proof
    assume "str_in q (c # cs)"
    then consider "startswith (c # cs) q" | "str_in q cs" by auto
    then show "\<exists>a b. c # cs = a @ q @ b"
    proof cases
      case 1
      then obtain b where "c # cs = q @ b" by (auto simp: startswith_iff)
      then have "c # cs = [] @ q @ b" by simp
      then show ?thesis by blast
    next
      case 2
      then obtain a b where "cs = a @ q @ b" using Cons.IH by blast
      then have "c # cs = (c # a) @ q @ b" by simp
      then show ?thesis by blast
    qed
  next
    assume "\<exists>a b. c # cs = a @ q @ b"
    then obtain a b where ab: "c # cs = a @ q @ b" by blast
    show "str_in q (c # cs)"
    proof (cases a)
      case Nil
      with ab have "startswith (c # cs) q" by (auto simp: startswith_iff)
      then show ?thesis by simp
    next
      case (Cons a0 as)
      with ab have "cs = as @ q @ b" by simp
      then have "str_in q cs" using Cons.IH by blast
      then show ?thesis by simp
    qed
  qed
qed

lemma take_sorted_first:
  assumes "sorted xs" and "x \<in> set xs" and "x \<notin> set (take n xs)"
  shows "length (take n xs) = n \<and> (\<forall>y\<in>set (take n xs). y \<le> x)"
proof -
  have split: "xs = take n xs @ drop n xs" by simp
  from assms(2,3) have in_drop: "x \<in> set (drop n xs)"
    by (metis Un_iff append_take_drop_id set_append)
  then have "drop n xs \<noteq> []" by auto
  then have len: "length (take n xs) = n" by simp
  from assms(1) have "sorted (take n xs @ drop n xs)" by simp
  then have "\<forall>y\<in>set (take n xs). \<forall>z\<in>set (drop n xs). y \<le> z"
    unfolding sorted_append by blast
  with in_drop len show ?thesis by blast
qed

text \<open>
  Claim C10.  On an exchange whose catalogue is loaded, \<open>search_symbols\<close> returns at most
  50 symbols in ascending order: the first 50, in that order, of the catalogue symbols
  that contain the query in upper case as a substring.  Every returned symbol is such a
  symbol of the catalogue, and a matching symbol that is left out stands after all 50
  returned ones.  The engine state does not change.
\<close>

theorem search_symbols_first_fifty:
  assumes "exchanges s (lower exchange_name) = Some (Some markets)"
    and "markets \<noteq> []"
  shows "\<exists>r. search_symbols e query exchange_name s = (Inr r, s)
    \<and> length r \<le> 50
    \<and> sorted r
    \<and> r = take 50 (sort (filter (\<lambda>m. \<exists>a b. m = a @ upper query @ b) markets))
    \<and> (\<forall>m\<in>set r. m \<in> set markets \<and> (\<exists>a b. m = a @ upper query @ b))
    \<and> (\<forall>m\<in>set markets. (\<exists>a b. m = a @ upper query @ b) \<and> m \<notin> set r \<longrightarrow>
          length r = 50 \<and> (\<forall>x\<in>set r. x \<le> m))"
proof -
  let ?match = "\<lambda>m. \<exists>a b. m = a @ upper query @ b"
  let ?all = "sort (filter ?match markets)"
  let ?r = "take 50 ?all"
  have flt: "filter (str_in (upper query)) markets = filter ?match markets"
    by (rule filter_cong) (simp_all add: str_in_iff)
  have run: "search_symbols e query exchange_name s = (Inr ?r, s)"
    using assms
    by (simp add: search_symbols_def get_exchange_def load_markets_def markets_falsy_def flt)
  have mem: "\<forall>m\<in>set ?r. m \<in> set markets \<and> ?match m"
  proof
    fix m assume "m \<in> set ?r"
    then have "m \<in> set ?all" by (rule in_set_takeD)
    then show "m \<in> set markets \<and> ?match m" by simp
  qed
  have first: "\<forall>m\<in>set markets. ?match m \<and> m \<notin> set ?r \<longrightarrow> length ?r = 50 \<and> (\<forall>x\<in>set ?r. x \<le> m)"
  proof (intro ballI impI)
    fix m assume m: "m \<in> set markets" and h: "?match m \<and> m \<notin> set ?r"
    then have "m \<in> set ?all" by simp
    moreover have "sorted ?all" by simp
    ultimately show "length ?r = 50 \<and> (\<forall>x\<in>set ?r. x \<le> m)"
      using h take_sorted_first[of ?all m 50] by blast
  qed
  have len: "length ?r \<le> 50" by simp
  have srt: "sorted ?r" by simp
  show ?thesis by (rule exI[of _ ?r]) (intro conjI run len srt refl mem first)
qed

lemma upper_btc: "upper ''btc'' = ''BTC''" by code_simp
lemma sort_demo: "sort (filter (str_in ''BTC'') [''ETH/USDT'', ''BTC/USDT'', ''ETH/BTC'', ''BTC/EUR''])
   = [''BTC/EUR'', ''BTC/USDT'', ''ETH/BTC'']"
  by simp

theorem search_symbols_first_fifty_witness:
  "exchanges demo_loaded (lower ''binance'') = Some (Some [''ETH/USDT'', ''BTC/USDT'', ''ETH/BTC'', ''BTC/EUR''])
   \<and> [''ETH/USDT'', ''BTC/USDT'', ''ETH/BTC'', ''BTC/EUR''] \<noteq> []
   \<and> search_symbols (demo_env [] []) ''btc'' ''binance'' demo_loaded
        = (Inr [''BTC/EUR'', ''BTC/USDT'', ''ETH/BTC''], demo_loaded)"
proof -
  let ?markets = "[''ETH/USDT'', ''BTC/USDT'', ''ETH/BTC'', ''BTC/EUR'']"
  have h1: "exchanges demo_loaded (lower ''binance'') = Some (Some ?markets)"
    by (simp add: demo_loaded_def lower_binance)
  have h2: "?markets \<noteq> []" by simp
  have flt: "filter (\<lambda>m. \<exists>a b. m = a @ ''BTC'' @ b) ?markets = filter (str_in ''BTC'') ?markets"
    by (rule filter_cong) (simp_all only: str_in_iff)
  from search_symbols_first_fifty[OF h1 h2, of "demo_env [] []" "''btc''"]
  obtain r where r1: "search_symbols (demo_env [] []) ''btc'' ''binance'' demo_loaded = (Inr r, demo_loaded)"
    and r2: "r = take 50 (sort (filter (\<lambda>m. \<exists>a b. m = a @ upper ''btc'' @ b) ?markets))"
    by blast
  from r1 r2 have "search_symbols (demo_env [] []) ''btc'' ''binance'' demo_loaded
        = (Inr (take 50 (sort (filter (\<lambda>m. \<exists>a b. m = a @ ''BTC'' @ b) ?markets))), demo_loaded)"
    unfolding upper_btc by simp
  then have "search_symbols (demo_env [] []) ''btc'' ''binance'' demo_loaded
        = (Inr [''BTC/EUR'', ''BTC/USDT'', ''ETH/BTC''], demo_loaded)"
    unfolding flt sort_demo by simp
  with h1 h2 show ?thesis by (intro conjI)
qed


section \<open>Counters\<close>

text \<open>What each step of a read path leaves unchanged.\<close>

lemma upstream_frame [simp]:
  "request_count (upstream e c s) = request_count s"
  "error_count (upstream e c s) = error_count s"
  "cache (upstream e c s) = cache s"
  "exchanges (upstream e c s) = exchanges s"
  "calls (upstream e c s) = calls s @ [c]"
  by (simp_all add: upstream_def)

lemma load_markets_frame:
  assumes "load_markets e n s = (r, s1)"
  shows "request_count s1 = request_count s \<and> error_count s1 = error_count s
       \<and> cache s1 = cache s \<and> (\<exists>cs. calls s1 = calls s @ cs)
       \<and> exchanges s1 (lower n) \<noteq> None = (exchanges s (lower n) \<noteq> None)
       \<and> (\<forall>m. get_exchange s n = Some m \<and> markets_falsy m \<longrightarrow> calls s1 \<noteq> calls s)"
  using assms
  by (auto simp: load_markets_def get_exchange_def split: option.splits if_splits sum.splits)

lemma orderbook_try_frame:
  assumes "orderbook_try e r n s = (res, s1)"
  shows "request_count s1 = request_count s \<and> error_count s1 = error_count s
       \<and> cache s1 = cache s \<and> (\<exists>cs. calls s1 = calls s @ cs)"
proof (cases "get_exchange s (exchange_value (exchange r))")
  case None
  with assms show ?thesis by (simp add: orderbook_try_def)
next
  case (Some m)
  obtain lr s0 where lm: "load_markets e (exchange_value (exchange r)) s = (lr, s0)"
    by (cases "load_markets e (exchange_value (exchange r)) s")
  note fr = load_markets_frame[OF lm]
  show ?thesis
    using assms Some lm fr
    by (auto simp: orderbook_try_def Let_def split: sum.splits option.splits)
qed

lemma ticker_try_frame:
  assumes "ticker_try e r s = (res, s1)"
  shows "request_count s1 = request_count s \<and> error_count s1 = error_count s
       \<and> ohlcv_cache (cache s1) = ohlcv_cache (cache s)
       \<and> orderbook_cache (cache s1) = orderbook_cache (cache s)
       \<and> (\<exists>cs. calls s1 = calls s @ cs)"
proof (cases "get_exchange s (exchange_value (exchange r))")
  case None
  with assms show ?thesis by (simp add: ticker_try_def)
next
  case (Some m)
  obtain lr s0 where lm: "load_markets e (exchange_value (exchange r)) s = (lr, s0)"
    by (cases "load_markets e (exchange_value (exchange r)) s")
  note fr = load_markets_frame[OF lm]
  show ?thesis
    using assms Some lm fr
    by (auto simp: ticker_try_def cm_set_ticker_def Let_def split: sum.splits option.splits)
qed

lemma ohlcv_try_frame:
  assumes "ohlcv_try e r s = (res, s1)"
  shows "request_count s1 = request_count s \<and> error_count s1 = error_count s
       \<and> ticker_cache (cache s1) = ticker_cache (cache s)
       \<and> orderbook_cache (cache s1) = orderbook_cache (cache s)
       \<and> (\<exists>cs. calls s1 = calls s @ cs)"
proof (cases "get_exchange s (exchange_value (exchange r))")
  case None
  with assms show ?thesis by (simp add: ohlcv_try_def)
next
  case (Some m)
  obtain lr s0 where lm: "load_markets e (exchange_value (exchange r)) s = (lr, s0)"
    by (cases "load_markets e (exchange_value (exchange r)) s")
  note fr = load_markets_frame[OF lm]
  show ?thesis
    using assms Some lm fr
    by (auto simp: ohlcv_try_def cm_set_ohlcv_def Let_def split: sum.splits option.splits)
qed

















section \<open>The order book is not cached\<close>

lemma get_orderbook_cache:
  "cache (snd (get_orderbook e r n s)) = cache s"
proof -
  let ?s0 = "s\<lparr>request_count := request_count s + 1\<rparr>"
  obtain tr s2 where t: "orderbook_try e r n ?s0 = (tr, s2)"
    by (cases "orderbook_try e r n ?s0")
  from orderbook_try_frame[OF t] t show ?thesis
    by (auto simp: get_orderbook_def Let_def split: sum.splits)
qed

lemma load_markets_cache_indep:
  "load_markets e x (s\<lparr>cache := cm\<rparr>)
     = (fst (load_markets e x s), (snd (load_markets e x s))\<lparr>cache := cm\<rparr>)"
  by (simp add: load_markets_def get_exchange_def upstream_def split: option.splits sum.splits)

lemma load_markets_calls_length:
  "length (calls (snd (load_markets e x (s\<lparr>cache := cm\<rparr>)))) = length (calls (snd (load_markets e x s)))"
  by (simp add: load_markets_cache_indep)

lemma orderbook_try_cache_indep:
  "orderbook_try e r n (s\<lparr>cache := cm\<rparr>)
     = (fst (orderbook_try e r n s), (snd (orderbook_try e r n s))\<lparr>cache := cm\<rparr>)"
proof (cases "load_markets e (exchange_value (exchange r)) s")
  case (Pair lr s0)
  then show ?thesis
    by (simp add: orderbook_try_def load_markets_cache_indep get_exchange_def upstream_def Let_def
        split: option.splits sum.splits)
qed

lemma get_orderbook_cache_indep:
  "get_orderbook e r n (s\<lparr>cache := cm\<rparr>)
     = (fst (get_orderbook e r n s), (snd (get_orderbook e r n s))\<lparr>cache := cm\<rparr>)"
proof -
  let ?s0 = "s\<lparr>request_count := request_count s + 1\<rparr>"
  have st: "s\<lparr>cache := cm, request_count := request_count s + 1\<rparr> = ?s0\<lparr>cache := cm\<rparr>"
    by simp
  have sw: "orderbook_try e r n (s\<lparr>cache := cm, request_count := request_count s + 1\<rparr>)
      = (fst (orderbook_try e r n ?s0), (snd (orderbook_try e r n ?s0))\<lparr>cache := cm\<rparr>)"
    unfolding st by (rule orderbook_try_cache_indep)
  show ?thesis
    using sw
    by (cases "orderbook_try e r n ?s0") (simp add: get_orderbook_def Let_def split: sum.splits)
qed

lemma orderbook_try_fetches:
  assumes "orderbook_try e r n s = (Inr ob, s1)"
  shows "calls s1 \<noteq> [] \<and> last (calls s1) = FetchOrderBook (exchange_value (exchange r)) (symbol r) n
       \<and> length (calls s) < length (calls s1)"
proof -
  obtain lr s0 where lm: "load_markets e (exchange_value (exchange r)) s = (lr, s0)"
    by (cases "load_markets e (exchange_value (exchange r)) s")
  from load_markets_frame[OF lm] obtain cs where "calls s0 = calls s @ cs" by blast
  with assms lm show ?thesis
    by (auto simp: orderbook_try_def Let_def split: option.splits sum.splits)
qed

lemma get_orderbook_fetches:
  assumes "\<not> isl (fst (get_orderbook e r n s))"
  shows "calls (snd (get_orderbook e r n s)) \<noteq> []
       \<and> last (calls (snd (get_orderbook e r n s)))
           = FetchOrderBook (exchange_value (exchange r)) (symbol r) n
       \<and> length (calls s) < length (calls (snd (get_orderbook e r n s)))"
proof -
  let ?s0 = "s\<lparr>request_count := request_count s + 1\<rparr>"
  obtain tr s2 where t: "orderbook_try e r n ?s0 = (tr, s2)"
    by (cases "orderbook_try e r n ?s0")
  show ?thesis
  proof (cases tr)
    case (Inl f)
    with assms t show ?thesis by (simp add: get_orderbook_def Let_def)
  next
    case (Inr ob)
    with t orderbook_try_fetches[of e r n ?s0 ob s2] show ?thesis
      by (simp add: get_orderbook_def Let_def)
  qed
qed


lemma cm_get_ticker_others:
  "ohlcv_cache (snd (cm_get_ticker d now x y cm)) = ohlcv_cache cm
   \<and> orderbook_cache (snd (cm_get_ticker d now x y cm)) = orderbook_cache cm"
  by (simp add: cm_get_ticker_def split: prod.splits)

lemma cm_get_ohlcv_others:
  "ticker_cache (snd (cm_get_ohlcv d now x y tf n cm)) = ticker_cache cm
   \<and> orderbook_cache (snd (cm_get_ohlcv d now x y tf n cm)) = orderbook_cache cm"
  by (simp add: cm_get_ohlcv_def split: prod.splits)

lemma get_ticker_orderbook_cache:
  "orderbook_cache (cache (snd (get_ticker e r s))) = orderbook_cache (cache s)"
proof -
  let ?s0 = "s\<lparr>request_count := request_count s + 1\<rparr>"
  obtain c cm where g: "cm_get_ticker (md5_hexdigest e) (clock ?s0) (exchange_value (exchange r))
             (symbol r) (cache ?s0) = (c, cm)"
    by (cases "cm_get_ticker (md5_hexdigest e) (clock ?s0) (exchange_value (exchange r))
             (symbol r) (cache ?s0)")
  have cm: "orderbook_cache cm = orderbook_cache (cache s)"
    using cm_get_ticker_others[of "md5_hexdigest e" "clock ?s0" "exchange_value (exchange r)"
        "symbol r" "cache ?s0"] g by simp
  obtain tr s2 where t: "ticker_try e r (?s0\<lparr>cache := cm\<rparr>) = (tr, s2)"
    by (cases "ticker_try e r (?s0\<lparr>cache := cm\<rparr>)")
  from ticker_try_frame[OF t] g t cm show ?thesis
    by (auto simp: get_ticker_def Let_def split: sum.splits option.splits)
qed

lemma get_ohlcv_orderbook_cache:
  "orderbook_cache (cache (snd (get_ohlcv e r s))) = orderbook_cache (cache s)"
proof -
  let ?s0 = "s\<lparr>request_count := request_count s + 1\<rparr>"
  obtain c cm where g: "cm_get_ohlcv (md5_hexdigest e) (clock ?s0) (exchange_value (exchange r))
             (symbol r) (timeframe_value (timeframe r)) (limit r) (cache ?s0) = (c, cm)"
    by (cases "cm_get_ohlcv (md5_hexdigest e) (clock ?s0) (exchange_value (exchange r))
             (symbol r) (timeframe_value (timeframe r)) (limit r) (cache ?s0)")
  have cm: "orderbook_cache cm = orderbook_cache (cache s)"
    using cm_get_ohlcv_others[of "md5_hexdigest e" "clock ?s0" "exchange_value (exchange r)"
        "symbol r" "timeframe_value (timeframe r)" "limit r" "cache ?s0"] g by simp
  obtain tr s2 where t: "ohlcv_try e r (?s0\<lparr>cache := cm\<rparr>) = (tr, s2)"
    by (cases "ohlcv_try e r (?s0\<lparr>cache := cm\<rparr>)")
  from ohlcv_try_frame[OF t] g t cm show ?thesis
    by (auto simp: get_ohlcv_def Let_def split: sum.splits option.splits list.splits)
qed

lemma gather_orderbook_cache:
  "orderbook_cache (cache (snd (gather e rs s))) = orderbook_cache (cache s)"
proof (induction rs arbitrary: s)
  case Nil
  then show ?case by simp
next
  case (Cons r rs)
  have one: "orderbook_cache (cache (snd (safe_get_ticker e r s))) = orderbook_cache (cache s)"
    using get_ticker_orderbook_cache[of e r s]
    by (cases "get_ticker e r s") (auto simp: safe_get_ticker_def split: sum.splits)
  show ?case
    using Cons.IH[of "snd (safe_get_ticker e r s)"] one
    by (cases "safe_get_ticker e r s") (auto split: prod.splits)
qed

lemma exec_orderbook_cache:
  assumes "orderbook_cache (cache s) = empty_cache"
  shows "orderbook_cache (cache (exec e s c)) = empty_cache"
proof (cases c)
  case (GetTicker r)
  with assms show ?thesis by (simp add: get_ticker_orderbook_cache)
next
  case (GetOrderbook r n)
  with assms show ?thesis by (simp add: get_orderbook_cache)
next
  case (GetOHLCV r)
  with assms show ?thesis by (simp add: get_ohlcv_orderbook_cache)
next
  case (GetMultiExchangeTicker smb exs)
  with assms gather_orderbook_cache show ?thesis
    by (auto simp: get_multi_exchange_ticker_def Let_def split: sum.splits prod.splits)
       (metis snd_conv)
next
  case (GetPriceStatistics r)
  with assms get_ohlcv_orderbook_cache[of e r s] show ?thesis
    by (cases "get_ohlcv e r s") (auto simp: get_price_statistics_def split: sum.splits)
next
  case (SearchSymbols q n)
  obtain lr s0 where lm: "load_markets e n s = (lr, s0)" by (cases "load_markets e n s")
  from load_markets_frame[OF lm] lm SearchSymbols assms show ?thesis
    by (auto simp: search_symbols_def split: option.splits sum.splits)
next
  case ClearCache
  then show ?thesis by (simp add: clear_cache_def clear_all_def new_CacheManager_def)
next
  case (Sleep d)
  with assms show ?thesis by simp
qed

lemma run_orderbook_cache:
  "orderbook_cache (cache s) = empty_cache \<Longrightarrow> orderbook_cache (cache (run e cmds s)) = empty_cache"
  unfolding run_def
  by (induction cmds arbitrary: s) (simp_all add: exec_orderbook_cache)

lemma orderbook_try_calls:
  "calls (snd (orderbook_try e r n s)) = calls s @ orderbook_calls e r n s"
  by (simp add: orderbook_try_def orderbook_calls_def load_markets_def upstream_def Let_def
      split: option.splits sum.splits)

lemma get_orderbook_calls:
  "calls (snd (get_orderbook e r n s)) = calls s @ orderbook_calls e r n s"
proof -
  let ?s0 = "s\<lparr>request_count := request_count s + 1\<rparr>"
  have a: "orderbook_calls e r n ?s0 = orderbook_calls e r n s"
    by (simp add: orderbook_calls_def get_exchange_def Let_def split: option.splits)
  have "calls (snd (get_orderbook e r n s)) = calls (snd (orderbook_try e r n ?s0))"
    by (cases "orderbook_try e r n ?s0") (simp add: get_orderbook_def Let_def split: sum.splits)
  then show ?thesis using a by (simp add: orderbook_try_calls)
qed

lemma get_orderbook_no_fetch_fails:
  "FetchOrderBook (exchange_value (exchange r)) (symbol r) n \<notin> set (orderbook_calls e r n s)
   \<Longrightarrow> fst (get_orderbook e r n s) = Inl OrderbookFailure"
proof -
  assume nf: "FetchOrderBook (exchange_value (exchange r)) (symbol r) n
                \<notin> set (orderbook_calls e r n s)"
  let ?s0 = "s\<lparr>request_count := request_count s + 1\<rparr>"
  have only: "isl (fst (get_orderbook e r n s)) \<Longrightarrow> fst (get_orderbook e r n s) = Inl OrderbookFailure"
    by (cases "orderbook_try e r n ?s0") (auto simp: get_orderbook_def Let_def split: sum.splits)
  have "isl (fst (get_orderbook e r n s))"
  proof (rule ccontr)
    assume ok: "\<not> isl (fst (get_orderbook e r n s))"
    from get_orderbook_fetches[OF ok]
    have l: "last (calls s @ orderbook_calls e r n s)
               = FetchOrderBook (exchange_value (exchange r)) (symbol r) n"
      and g: "length (calls s) < length (calls s @ orderbook_calls e r n s)"
      by (simp_all only: get_orderbook_calls)
    from g have ne: "orderbook_calls e r n s \<noteq> []" by auto
    with l have "last (orderbook_calls e r n s)
               = FetchOrderBook (exchange_value (exchange r)) (symbol r) n" by simp
    with ne nf show False using last_in_set[of "orderbook_calls e r n s"] by simp
  qed
  then show ?thesis by (rule only)
qed

text \<open>
  Claim C9.  \<open>get_orderbook\<close> leaves the three caches as they are, and neither its result
  nor the rest of the state it returns depends on what the caches hold: with any other
  cache contents it returns the same result and the same state around them.  The calls
  it makes into the exchange library are those of \<open>orderbook_calls\<close>: a fetch whenever the
  exchange is registered and its catalogue is there or loads, and no fetch otherwise.  A
  call that returns an order book has just fetched it, and a call that makes no fetch
  fails.  Starting from a new engine, the order-book cache is empty after every
  sequence of engine operations.
\<close>

theorem orderbook_never_cached:
  "cache (snd (get_orderbook e r n s)) = cache s
   \<and> get_orderbook e r n (s\<lparr>cache := cm\<rparr>)
       = (fst (get_orderbook e r n s), (snd (get_orderbook e r n s))\<lparr>cache := cm\<rparr>)
   \<and> calls (snd (get_orderbook e r n s)) = calls s @ orderbook_calls e r n s
   \<and> (\<not> isl (fst (get_orderbook e r n s)) \<longrightarrow>
        calls (snd (get_orderbook e r n s)) \<noteq> []
        \<and> last (calls (snd (get_orderbook e r n s)))
            = FetchOrderBook (exchange_value (exchange r)) (symbol r) n
        \<and> length (calls s) < length (calls (snd (get_orderbook e r n s))))
   \<and> (FetchOrderBook (exchange_value (exchange r)) (symbol r) n \<notin> set (orderbook_calls e r n s)
        \<longrightarrow> fst (get_orderbook e r n s) = Inl OrderbookFailure)
   \<and> orderbook_cache (cache (run e cmds (new_server t0))) = empty_cache"
proof -
  have init: "orderbook_cache (cache (new_server t0)) = empty_cache"
    by (simp add: new_server_def new_CacheManager_def)
  show ?thesis
    using get_orderbook_cache[of e r n s] get_orderbook_cache_indep[where s=s and cm=cm and e=e and r=r and n=n]
      get_orderbook_fetches[of e r n s] run_orderbook_cache[OF init, of e cmds]
      get_orderbook_calls[of e r n s] get_orderbook_no_fetch_fails[of r n e s]
    by (intro conjI impI) simp_all
qed

text \<open>
  Not every call fetches: with a catalogue that does not load the only call made is
  \<open>load_markets\<close>, and with an exchange that failed to initialise no call is made at all.
\<close>

theorem orderbook_no_fetch_counterexample:
  "fst (get_orderbook demo_offline demo_ticker_request 20 (new_server 0)) = Inl OrderbookFailure
   \<and> calls (snd (get_orderbook demo_offline demo_ticker_request 20 (new_server 0)))
       = [LoadMarkets ''binance'']
   \<and> fst (get_orderbook (demo_env [] []) demo_ticker_request 20
            ((new_server 0)\<lparr>exchanges := Map.empty\<rparr>)) = Inl OrderbookFailure
   \<and> calls (snd (get_orderbook (demo_env [] []) demo_ticker_request 20
            ((new_server 0)\<lparr>exchanges := Map.empty\<rparr>))) = []"
  by (simp add: get_orderbook_def orderbook_try_def new_server_def
      get_exchange_def lower_binance all_exchanges_def
      load_markets_def markets_falsy_def demo_offline_def demo_env_def demo_ticker_request_def
      upstream_def Let_def)

lemma demo_get_orderbook:
  "fst (get_orderbook (demo_env [] []) demo_ticker_request 20 (new_server 0))
     = Inr \<lparr>ob_symbol = ''BTC/USDT'', ob_exchange = ''binance'', ob_timestamp = 1700000000,
            ob_bids = [], ob_asks = []\<rparr>"
  by (simp add: get_orderbook_def orderbook_try_def new_server_def
      get_exchange_def lower_binance all_exchanges_def make_orderbook_def py_take_def
      load_markets_def markets_falsy_def demo_env_def demo_ticker_request_def upstream_def Let_def)

lemma demo_orderbook_calls:
  "orderbook_calls (demo_env [] []) demo_ticker_request 20 (new_server 0)
     = [LoadMarkets ''binance'', FetchOrderBook ''binance'' ''BTC/USDT'' 20]"
  "orderbook_calls demo_offline demo_ticker_request 20 (new_server 0) = [LoadMarkets ''binance'']"
  by (simp_all add: orderbook_calls_def new_server_def get_exchange_def lower_binance
      all_exchanges_def markets_falsy_def demo_env_def demo_offline_def demo_ticker_request_def
      Let_def)

theorem orderbook_never_cached_witness:
  "\<not> isl (fst (get_orderbook (demo_env [] []) demo_ticker_request 20 (new_server 0)))
   \<and> cache (snd (get_orderbook (demo_env [] []) demo_ticker_request 20 (new_server 0)))
       = cache (new_server 0)
   \<and> calls (snd (get_orderbook (demo_env [] []) demo_ticker_request 20 (new_server 0)))
       = [LoadMarkets ''binance'', FetchOrderBook ''binance'' ''BTC/USDT'' 20]
   \<and> last (calls (snd (get_orderbook (demo_env [] []) demo_ticker_request 20 (new_server 0))))
       = FetchOrderBook ''binance'' ''BTC/USDT'' 20
   \<and> length (calls (new_server 0))
       < length (calls (snd (get_orderbook (demo_env [] []) demo_ticker_request 20 (new_server 0))))
   \<and> FetchOrderBook (exchange_value (exchange demo_ticker_request)) (symbol demo_ticker_request) 20
       \<notin> set (orderbook_calls demo_offline demo_ticker_request 20 (new_server 0))
   \<and> fst (get_orderbook demo_offline demo_ticker_request 20 (new_server 0)) = Inl OrderbookFailure
   \<and> orderbook_cache (cache (run (demo_env [] [])
        [GetOrderbook demo_ticker_request 20, GetTicker demo_ticker_request, ClearCache,
         GetOrderbook demo_ticker_request 5] (new_server 0))) = empty_cache"
proof -
  let ?cmds = "[GetOrderbook demo_ticker_request 20, GetTicker demo_ticker_request, ClearCache,
         GetOrderbook demo_ticker_request 5]"
  have ok: "\<not> isl (fst (get_orderbook (demo_env [] []) demo_ticker_request 20 (new_server 0)))"
    by (simp add: demo_get_orderbook)
  have v: "exchange_value (exchange demo_ticker_request) = ''binance''"
    "symbol demo_ticker_request = ''BTC/USDT''"
    by (simp_all add: demo_ticker_request_def)
  have nf: "FetchOrderBook (exchange_value (exchange demo_ticker_request)) (symbol demo_ticker_request) 20
       \<notin> set (orderbook_calls demo_offline demo_ticker_request 20 (new_server 0))"
    by (simp add: demo_orderbook_calls)
  have c0: "calls (new_server 0) = []" by (simp add: new_server_def)
  note a = orderbook_never_cached[of "demo_env [] []" demo_ticker_request 20 "new_server 0"
      "cache (new_server 0)" ?cmds 0]
  note b = orderbook_never_cached[of demo_offline demo_ticker_request 20 "new_server 0"
      "cache (new_server 0)" ?cmds 0]
  from a have a1: "cache (snd (get_orderbook (demo_env [] []) demo_ticker_request 20 (new_server 0)))
       = cache (new_server 0)" by (rule conjunct1)
  from a have a3: "calls (snd (get_orderbook (demo_env [] []) demo_ticker_request 20 (new_server 0)))
       = [LoadMarkets ''binance'', FetchOrderBook ''binance'' ''BTC/USDT'' 20]"
    by (simp only: demo_orderbook_calls c0 append_Nil)
  from a ok have a4: "last (calls (snd (get_orderbook (demo_env [] []) demo_ticker_request 20 (new_server 0))))
       = FetchOrderBook ''binance'' ''BTC/USDT'' 20"
    and a5: "length (calls (new_server 0))
       < length (calls (snd (get_orderbook (demo_env [] []) demo_ticker_request 20 (new_server 0))))"
    unfolding v by blast+
  from a have a6: "orderbook_cache (cache (run (demo_env [] []) ?cmds (new_server 0))) = empty_cache"
    by blast
  from b nf have b1: "fst (get_orderbook demo_offline demo_ticker_request 20 (new_server 0)) = Inl OrderbookFailure"
    by blast
  show ?thesis
    by (intro conjI ok a1 a3 a4 a5 nf b1 a6)
qed

section \<open>Multi-exchange fan-out\<close>

lemma build_requests_valid:
  "CHR ''/'' \<in> set smb \<Longrightarrow>
     build_requests smb xl = Inr (map (\<lambda>ex. \<lparr>symbol = upper smb, exchange = ex\<rparr>) xl)"
  by (induction xl) (simp_all add: new_MarketDataRequest_def validate_symbol_def)

lemma build_requests_invalid:
  "CHR ''/'' \<notin> set smb \<Longrightarrow> xl \<noteq> [] \<Longrightarrow> build_requests smb xl = Inl ValidationError"
  by (cases xl) (simp_all add: new_MarketDataRequest_def validate_symbol_def)

lemma gather_length: "length (fst (gather e rs s)) = length rs"
proof (induction rs arbitrary: s)
  case Nil
  then show ?case by simp
next
  case (Cons r rs)
  obtain x s1 where one: "safe_get_ticker e r s = (x, s1)" by (cases "safe_get_ticker e r s")
  obtain xs s2 where rest: "gather e rs s1 = (xs, s2)" by (cases "gather e rs s1")
  from Cons.IH[of s1] one rest show ?case by simp
qed

lemma gather_nth:
  "i < length rs \<Longrightarrow>
     fst (gather e rs s) ! i = fst (safe_get_ticker e (rs ! i) (snd (gather e (take i rs) s)))"
proof (induction rs arbitrary: i s)
  case Nil
  then show ?case by simp
next
  case (Cons r rs)
  obtain x s1 where one: "safe_get_ticker e r s = (x, s1)" by (cases "safe_get_ticker e r s")
  obtain xs s2 where rest: "gather e rs s1 = (xs, s2)" by (cases "gather e rs s1")
  show ?case
  proof (cases i)
    case 0
    with one rest show ?thesis by simp
  next
    case (Suc j)
    with Cons.prems have j: "j < length rs" by simp
    obtain ys s3 where pre: "gather e (take j rs) s1 = (ys, s3)" by (cases "gather e (take j rs) s1")
    from Cons.IH[OF j, of s1] rest pre have "xs ! j = fst (safe_get_ticker e (rs ! j) s3)" by simp
    with Suc one rest pre show ?thesis by simp
  qed
qed

lemma safe_get_ticker_None:
  "(fst (safe_get_ticker e r s) = None) = isl (fst (get_ticker e r s))"
  by (cases "get_ticker e r s") (auto simp: safe_get_ticker_def split: sum.splits)

lemma succeeded_Cons_Some:
  "{exchange_value ex | ex t. (ex, Some t) \<in> set ((x, Some v) # ps)}
     = insert (exchange_value x) {exchange_value ex | ex t. (ex, Some t) \<in> set ps}"
  by auto

lemma succeeded_Cons_None:
  "{exchange_value ex | ex t. (ex, Some t) \<in> set ((x, None) # ps)}
     = {exchange_value ex | ex t. (ex, Some t) \<in> set ps}"
  by auto

lemma collect_dom:
  "dom (collect ps m) = dom m \<union> {exchange_value ex | ex t. (ex, Some t) \<in> set ps}"
proof (induction ps m rule: collect.induct)
  case (1 m)
  then show ?case by simp
next
  case (2 ex rest m)
  then show ?case by (simp only: collect.simps succeeded_Cons_None)
next
  case (3 ex t rest m)
  have "dom (collect ((ex, Some t) # rest) m)
      = dom (m(exchange_value ex \<mapsto> t)) \<union> {exchange_value ex | ex t. (ex, Some t) \<in> set rest}"
    using 3 by (simp only: collect.simps)
  also have "\<dots> = dom m \<union> insert (exchange_value ex) {exchange_value ex | ex t. (ex, Some t) \<in> set rest}"
    by (simp only: dom_fun_upd) auto
  finally show ?case by (simp only: succeeded_Cons_Some)
qed

lemma zip_Some_nth:
  assumes "length rs = length xl"
  shows "{f ex | ex t. (ex, Some t) \<in> set (zip xl rs)} = {f (xl ! i) | i. i < length xl \<and> rs ! i \<noteq> None}"
proof (intro set_eqI iffI)
  fix y assume "y \<in> {f ex | ex t. (ex, Some t) \<in> set (zip xl rs)}"
  then obtain ex t where y: "y = f ex" and "(ex, Some t) \<in> set (zip xl rs)" by blast
  then obtain i where "i < length xl" "xl ! i = ex" "rs ! i = Some t"
    using assms by (auto simp: in_set_zip)
  with y show "y \<in> {f (xl ! i) | i. i < length xl \<and> rs ! i \<noteq> None}" by auto
next
  fix y assume "y \<in> {f (xl ! i) | i. i < length xl \<and> rs ! i \<noteq> None}"
  then obtain i t where i: "i < length xl" "y = f (xl ! i)" "rs ! i = Some t" by auto
  with assms have "(xl ! i, Some t) \<in> set (zip xl rs)"
    by (auto simp: in_set_zip)
  with i show "y \<in> {f ex | ex t. (ex, Some t) \<in> set (zip xl rs)}" by blast
qed

text \<open>
  Claim C1, as the code has it.  For a symbol that contains \<open>/\<close> and any list of
  exchanges (all five when none is given), \<open>get_multi_exchange_ticker\<close> returns a
  mapping; there is one sub-query per requested exchange, the i-th one being
  \<open>get_ticker\<close> for the i-th exchange in the state the earlier ones left; a sub-query
  that fails, for whatever reason, yields no entry and the others go on; the keys of
  the mapping are exactly the ids of the exchanges whose sub-query succeeded.  The
  sub-queries run one after the other here, in the order of the list.
\<close>

theorem multi_exchange_absorbs_failures:
  assumes "CHR ''/'' \<in> set smb"
  shows "let xl = (case exs of None \<Rightarrow> all_exchanges | Some l \<Rightarrow> l);
             tasks = map (\<lambda>ex. \<lparr>symbol = upper smb, exchange = ex\<rparr>) xl;
             results = fst (gather e tasks s)
         in \<exists>m. get_multi_exchange_ticker e smb exs s = (Inr m, snd (gather e tasks s))
              \<and> length results = length xl
              \<and> (\<forall>i<length xl. (results ! i = None)
                    = isl (fst (get_ticker e (tasks ! i) (snd (gather e (take i tasks) s)))))
              \<and> dom m = {exchange_value (xl ! i) | i. i < length xl \<and> results ! i \<noteq> None}"
proof -
  define xl where "xl = (case exs of None \<Rightarrow> all_exchanges | Some l \<Rightarrow> l)"
  define tasks where "tasks = map (\<lambda>ex. \<lparr>symbol = upper smb, exchange = ex\<rparr>) xl"
  define results where "results = fst (gather e tasks s)"
  define m where "m = collect (zip xl results) Map.empty"
  have br: "build_requests smb xl = Inr tasks"
    unfolding tasks_def by (rule build_requests_valid[OF assms])
  have len: "length results = length xl"
    unfolding results_def by (simp add: gather_length tasks_def)
  have run: "get_multi_exchange_ticker e smb exs s = (Inr m, snd (gather e tasks s))"
    using br
    by (cases "gather e tasks s")
       (simp add: get_multi_exchange_ticker_def Let_def xl_def[symmetric] m_def results_def)
  have each: "\<forall>i<length xl. (results ! i = None)
                    = isl (fst (get_ticker e (tasks ! i) (snd (gather e (take i tasks) s))))"
  proof (intro allI impI)
    fix i assume "i < length xl"
    then have "i < length tasks" by (simp add: tasks_def)
    then show "(results ! i = None)
                    = isl (fst (get_ticker e (tasks ! i) (snd (gather e (take i tasks) s))))"
      unfolding results_def by (simp add: gather_nth safe_get_ticker_None)
  qed
  have d: "dom m = {exchange_value (xl ! i) | i. i < length xl \<and> results ! i \<noteq> None}"
    unfolding m_def collect_dom using zip_Some_nth[OF len, of exchange_value] by simp
  have "\<exists>m. get_multi_exchange_ticker e smb exs s = (Inr m, snd (gather e tasks s))
              \<and> length results = length xl
              \<and> (\<forall>i<length xl. (results ! i = None)
                    = isl (fst (get_ticker e (tasks ! i) (snd (gather e (take i tasks) s)))))
              \<and> dom m = {exchange_value (xl ! i) | i. i < length xl \<and> results ! i \<noteq> None}"
    by (rule exI[of _ m]) (intro conjI run len each d)
  then show ?thesis
    unfolding Let_def xl_def tasks_def results_def .
qed

text \<open>
  A symbol without \<open>/\<close>: the requests are built before the sub-queries are wrapped, so
  the validation error ends the whole operation and no mapping is returned.
\<close>

theorem multi_exchange_invalid_symbol_counterexample:
  "get_multi_exchange_ticker (demo_env [] []) ''BTCUSDT'' (Some [BINANCE, KRAKEN]) (new_server 0)
     = (Inl ValidationError, new_server 0)"
  by (simp add: get_multi_exchange_ticker_def new_MarketDataRequest_def validate_symbol_def)

section \<open>A run with one exchange down\<close>

text \<open>
  Three ticker calls on a new engine, for Binance, Coinbase (down) and Kraken, one
  state at a time.
\<close>

lemma lower_ids:
  "lower ''binance'' = ''binance''" "lower ''coinbase'' = ''coinbase''" "lower ''kraken'' = ''kraken''"
  by code_simp+

lemma ticker_key_plain:
  "ticker_key (\<lambda>t. t) ex smb = ''ticker:exchange='' @ ex @ '':symbol='' @ smb"
  by (simp add: ticker_key_def generate_key_def key_str_def)

lemma make_demo_ticker: "make_ticker ''BTC/USDT'' ex demo_ticker = Some (demo_ticker_data ex)"
  by (simp add: make_ticker_def demo_ticker_def demo_ticker_data_def py_or_def)

lemmas eval_defs =
  get_ticker_def ticker_try_def cm_get_ticker_def cm_set_ticker_def
  cache_get_def cache_contains_def cache_set_def expire_def cache_keys_def cache_len_def
  get_exchange_def lower_ids make_room_fits load_markets_def markets_falsy_def demo_env_def upstream_def Let_def
  ticker_key_plain make_demo_ticker

lemma demo_step1:
  "fst (get_ticker (demo_env [''coinbase''] []) \<lparr>symbol = ''BTC/USDT'', exchange = BINANCE\<rparr>
          (new_server 0)) = Inr (demo_ticker_data ''binance'')"
  "cache demo_s1 =
     \<lparr>ticker_cache = \<lparr>entries = [(''ticker:exchange=binance:symbol=BTC/USDT'',
                                    demo_ticker_data ''binance'', 51 / 5)],
                      lru = [''ticker:exchange=binance:symbol=BTC/USDT'']\<rparr>,
      ohlcv_cache = empty_cache, orderbook_cache = empty_cache\<rparr>"
  "exchanges demo_s1 ''coinbase'' = Some None"
  "exchanges demo_s1 ''kraken'' = Some None"
  "clock demo_s1 = 1 / 5"
  "request_count demo_s1 = 1"
  "error_count demo_s1 = 0"
  "calls demo_s1 = [LoadMarkets ''binance'', FetchTicker ''binance'' ''BTC/USDT'']"
  unfolding demo_s1_def
  by (simp_all add: eval_defs new_server_def new_CacheManager_def empty_cache_def all_exchanges_def)

lemma demo_step2:
  "fst (get_ticker (demo_env [''coinbase''] []) \<lparr>symbol = ''BTC/USDT'', exchange = COINBASE\<rparr>
          demo_s1) = Inl NetworkFailure"
  "cache demo_s2 = cache demo_s1"
  "exchanges demo_s2 ''kraken'' = Some None"
  unfolding demo_s2_def
  by (simp_all add: eval_defs demo_step1)

lemma demo_step3:
  "fst (get_ticker (demo_env [''coinbase''] []) \<lparr>symbol = ''BTC/USDT'', exchange = KRAKEN\<rparr>
          demo_s2) = Inr (demo_ticker_data ''kraken'')"
  by (simp add: eval_defs demo_step2 demo_step1)

lemma safe_get_ticker_fst:
  "fst (safe_get_ticker e r s) = (case fst (get_ticker e r s) of Inl err \<Rightarrow> None | Inr t \<Rightarrow> Some t)"
  by (cases "get_ticker e r s") (simp add: safe_get_ticker_def split: sum.splits)

lemma safe_get_ticker_snd: "snd (safe_get_ticker e r s) = snd (get_ticker e r s)"
  by (cases "get_ticker e r s") (simp add: safe_get_ticker_def split: sum.splits)

lemma gather_Cons:
  "fst (gather e (r # rs) s) = fst (safe_get_ticker e r s) # fst (gather e rs (snd (get_ticker e r s)))"
  by (cases "safe_get_ticker e r s"; cases "gather e rs (snd (safe_get_ticker e r s))")
     (simp add: safe_get_ticker_snd[symmetric])

lemma demo_gather:
  "fst (gather (demo_env [''coinbase''] [])
          [\<lparr>symbol = ''BTC/USDT'', exchange = BINANCE\<rparr>,
           \<lparr>symbol = ''BTC/USDT'', exchange = COINBASE\<rparr>,
           \<lparr>symbol = ''BTC/USDT'', exchange = KRAKEN\<rparr>] (new_server 0))
     = [Some (demo_ticker_data ''binance''), None, Some (demo_ticker_data ''kraken'')]"
  unfolding gather_Cons demo_s1_def[symmetric] demo_s2_def[symmetric]
  by (simp add: safe_get_ticker_fst demo_step1 demo_step2 demo_step3)

theorem multi_exchange_absorbs_failures_witness:
  "CHR ''/'' \<in> set ''btc/usdt''
   \<and> (\<exists>m. fst (get_multi_exchange_ticker (demo_env [''coinbase''] []) ''btc/usdt''
                 (Some [BINANCE, COINBASE, KRAKEN]) (new_server 0)) = Inr m
          \<and> dom m = {''binance'', ''kraken''})"
proof -
  have h: "CHR ''/'' \<in> set ''btc/usdt''" by simp
  have sel: "{exchange_value ([BINANCE, COINBASE, KRAKEN] ! i) | i.
               i < length [BINANCE, COINBASE, KRAKEN]
               \<and> [Some (demo_ticker_data ''binance''), None, Some (demo_ticker_data ''kraken'')] ! i \<noteq> None}
             = {''binance'', ''kraken''}"
  proof -
    have "{exchange_value ex | ex t. (ex, Some t) \<in> set (zip [BINANCE, COINBASE, KRAKEN]
             [Some (demo_ticker_data ''binance''), None, Some (demo_ticker_data ''kraken'')])}
          = {''binance'', ''kraken''}"
      by (auto intro: exI[of _ BINANCE] exI[of _ KRAKEN])
    then show ?thesis
      by (subst zip_Some_nth[symmetric]) simp_all
  qed
  from multi_exchange_absorbs_failures[OF h, of "Some [BINANCE, COINBASE, KRAKEN]"
      "demo_env [''coinbase''] []" "new_server 0"]
  obtain m where
    m1: "get_multi_exchange_ticker (demo_env [''coinbase''] []) ''btc/usdt''
           (Some [BINANCE, COINBASE, KRAKEN]) (new_server 0)
         = (Inr m, snd (gather (demo_env [''coinbase''] [])
              (map (\<lambda>ex. \<lparr>symbol = upper ''btc/usdt'', exchange = ex\<rparr>) [BINANCE, COINBASE, KRAKEN])
              (new_server 0)))"
    and m2: "dom m = {exchange_value ([BINANCE, COINBASE, KRAKEN] ! i) | i.
               i < length [BINANCE, COINBASE, KRAKEN]
               \<and> fst (gather (demo_env [''coinbase''] [])
                    (map (\<lambda>ex. \<lparr>symbol = upper ''btc/usdt'', exchange = ex\<rparr>) [BINANCE, COINBASE, KRAKEN])
                    (new_server 0)) ! i \<noteq> None}"
    unfolding Let_def option.case by blast
  have g: "fst (gather (demo_env [''coinbase''] [])
                    (map (\<lambda>ex. \<lparr>symbol = upper ''btc/usdt'', exchange = ex\<rparr>) [BINANCE, COINBASE, KRAKEN])
                    (new_server 0))
           = [Some (demo_ticker_data ''binance''), None, Some (demo_ticker_data ''kraken'')]"
    using demo_gather by (simp add: upper_btc_usdt)
  from m2 have "dom m = {''binance'', ''kraken''}" unfolding g sel .
  moreover from m1 have "fst (get_multi_exchange_ticker (demo_env [''coinbase''] []) ''btc/usdt''
                 (Some [BINANCE, COINBASE, KRAKEN]) (new_server 0)) = Inr m" by simp
  ultimately show ?thesis using h by blast
qed

lemmas eval_ohlcv_defs =
  get_ohlcv_def ohlcv_try_def cm_get_ohlcv_def cm_set_ohlcv_def
  cache_get_def cache_contains_def cache_set_def expire_def cache_keys_def cache_len_def
  get_exchange_def lower_ids make_room_fits load_markets_def markets_falsy_def demo_env_def
  upstream_def Let_def demo_request_def








section \<open>Cached candle lists\<close>

lemma demo_o1_facts:
  "cache demo_o1 =
     \<lparr>ticker_cache = empty_cache,
      ohlcv_cache = \<lparr>entries = [(ohlcv_key (\<lambda>t. t) ''binance'' ''BTC/USDT'' ''1h'' 5, [], 301 / 5)],
                     lru = [ohlcv_key (\<lambda>t. t) ''binance'' ''BTC/USDT'' ''1h'' 5]\<rparr>,
      orderbook_cache = empty_cache\<rparr>"
  "exchanges demo_o1 ''binance'' = Some (Some [''ETH/USDT'', ''BTC/USDT''])"
  "clock demo_o1 = 1 / 5"
  "calls demo_o1 = [LoadMarkets ''binance'', FetchOHLCV ''binance'' ''BTC/USDT'' ''1h'' None 5]"
  "request_count demo_o1 = 1"
  unfolding demo_o1_def
  by (simp_all add: eval_ohlcv_defs new_server_def new_CacheManager_def
      empty_cache_def all_exchanges_def)

text \<open>
  Claim C2.  A candle request that the exchange answers with an empty list, made twice
  within the time to live.  The first call fetches and stores the empty list.  When the
  second call is made the entry is present and has not expired, and the cache returns
  it; the test \<open>if cached:\<close> takes the empty list for a miss, and the second call fetches
  from the exchange again: two identical requests within the time to live make two
  fetches.
\<close>

theorem ohlcv_empty_list_fetched_twice:
  "fst (get_ohlcv (demo_env [] []) demo_request (new_server 0)) = Inr []
   \<and> calls demo_o1 = [LoadMarkets ''binance'', FetchOHLCV ''binance'' ''BTC/USDT'' ''1h'' None 5]
   \<and> clock demo_o1 = 1 / 5
   \<and> cache_contains (clock demo_o1) (ohlcv_key (\<lambda>t. t) ''binance'' ''BTC/USDT'' ''1h'' 5)
        (ohlcv_cache (cache demo_o1))
   \<and> expiry_of (ohlcv_cache (cache demo_o1)) (ohlcv_key (\<lambda>t. t) ''binance'' ''BTC/USDT'' ''1h'' 5)
        = Some (301 / 5)
   \<and> fst (cm_get_ohlcv (md5_hexdigest (demo_env [] [])) (clock demo_o1) ''binance'' ''BTC/USDT'' ''1h'' 5
             (cache demo_o1)) = Some []
   \<and> fst (get_ohlcv (demo_env [] []) demo_request demo_o1) = Inr []
   \<and> calls (snd (get_ohlcv (demo_env [] []) demo_request demo_o1))
       = [LoadMarkets ''binance'', FetchOHLCV ''binance'' ''BTC/USDT'' ''1h'' None 5,
          FetchOHLCV ''binance'' ''BTC/USDT'' ''1h'' None 5]
   \<and> request_count (snd (get_ohlcv (demo_env [] []) demo_request demo_o1)) = 2"
proof (intro conjI)
  show "fst (get_ohlcv (demo_env [] []) demo_request (new_server 0)) = Inr []"
    by (rule demo_get_ohlcv_empty)
qed (simp_all add: demo_o1_facts eval_ohlcv_defs expiry_of_def)

section \<open>Cache capacity\<close>












section \<open>Cache keys\<close>

lemma of_char_digit: "d < 10 \<Longrightarrow> of_char (digit_char d) = (48 + d :: nat)"
  by (simp add: digit_char_def)

lemma digits_value_str_nat: "digits_value (str_nat n) = n"
proof (induction n rule: str_nat.induct)
  case (1 n)
  show ?case
  proof (cases "n < 10")
    case True
    then show ?thesis
      by (subst str_nat.simps) (simp add: digits_value_def of_char_digit)
  next
    case False
    have "digits_value (str_nat n) = 10 * digits_value (str_nat (n div 10)) + n mod 10"
      using False by (subst str_nat.simps) (simp add: digits_value_def of_char_digit)
    with 1 False show ?thesis by simp
  qed
qed

lemma str_nat_inj: "str_nat a = str_nat b \<Longrightarrow> a = b"
  by (metis digits_value_str_nat)

lemma digit_not_minus: "d < 10 \<Longrightarrow> digit_char d \<noteq> CHR ''-''"
proof
  assume d: "d < 10" and "digit_char d = CHR ''-''"
  then have "(of_char (digit_char d) :: nat) = of_char (CHR ''-'')" by simp
  with d show False by (simp add: of_char_digit)
qed

lemma str_nat_hd: "str_nat n \<noteq> [] \<and> hd (str_nat n) \<noteq> CHR ''-''"
proof (induction n rule: str_nat.induct)
  case (1 n)
  show ?case
  proof (cases "n < 10")
    case True
    then show ?thesis by (subst (1 2) str_nat.simps) (simp add: digit_not_minus)
  next
    case False
    with 1 show ?thesis by (subst (1 2) str_nat.simps) simp
  qed
qed

lemma str_int_inj: "str_int a = str_int b \<Longrightarrow> a = b"
proof -
  assume eq: "str_int a = str_int b"
  have neg: "\<And>i j. i < 0 \<Longrightarrow> \<not> j < 0 \<Longrightarrow> str_int i \<noteq> str_int j"
  proof
    fix i j :: int assume "i < 0" "\<not> j < 0" and e: "str_int i = str_int j"
    then have "CHR ''-'' # str_nat (nat (- i)) = str_nat (nat j)" by (simp add: str_int_def)
    then have "hd (str_nat (nat j)) = CHR ''-''" by (metis list.sel(1))
    with str_nat_hd[of "nat j"] show False by simp
  qed
  show "a = b"
  proof (cases "a < 0"; cases "b < 0")
    assume "a < 0" "b < 0"
    with eq have "nat (- a) = nat (- b)" by (simp add: str_int_def str_nat_inj)
    with \<open>a < 0\<close> \<open>b < 0\<close> show ?thesis by simp
  next
    assume "a < 0" "\<not> b < 0"
    with neg eq show ?thesis by blast
  next
    assume "\<not> a < 0" "b < 0"
    with neg[of b a] eq show ?thesis by simp
  next
    assume "\<not> a < 0" "\<not> b < 0"
    with eq have "nat a = nat b" by (simp add: str_int_def str_nat_inj)
    with \<open>\<not> a < 0\<close> \<open>\<not> b < 0\<close> show ?thesis by simp
  qed
qed

lemma py_str_same_type: "same_type v v' \<Longrightarrow> v \<noteq> v' \<Longrightarrow> py_str v \<noteq> py_str v'"
  by (cases v; cases v') (auto dest: str_int_inj)

lemma filter_same_key:
  assumes "distinct (map fst xs)" and "k \<in> set xs"
  shows "filter (\<lambda>x. fst k = fst x) xs = [k]"
  using assms
proof (induction xs)
  case Nil
  then show ?case by simp
next
  case (Cons a xs)
  show ?case
  proof (cases "k = a")
    case True
    have "filter (\<lambda>x. fst a = fst x) xs = []"
      using Cons.prems(1) by (auto simp: filter_empty_conv image_iff)
    with True show ?thesis by simp
  next
    case False
    with Cons.prems have k: "k \<in> set xs" by simp
    then have "fst k \<noteq> fst a" using Cons.prems(1) by (auto simp: image_iff)
    with Cons.IH k Cons.prems(1) show ?thesis by simp
  qed
qed

lemma sort_key_permutation:
  assumes "distinct (map fst kw1)" and "mset kw1 = mset kw2"
  shows "sort_key fst kw1 = sort_key fst kw2"
proof (rule properties_for_sort_key)
  show "mset (sort_key fst kw2) = mset kw1" using assms(2) by simp
next
  have d2: "distinct (map fst kw2)"
  proof -
    have "mset (map fst kw1) = mset (map fst kw2)" using assms(2) by (metis mset_map)
    then show ?thesis using assms(1) by (metis mset_eq_imp_distinct_iff)
  qed
  have d3: "distinct (map fst (sort_key fst kw2))"
  proof -
    have "mset (map fst (sort_key fst kw2)) = mset (map fst kw2)" by (metis mset_map mset_sort)
    then show ?thesis using d2 by (metis mset_eq_imp_distinct_iff)
  qed
  fix k assume k: "k \<in> set (sort_key fst kw2)"
  then have "k \<in> set kw1" using assms(2) by (metis mset_eq_setD set_sort)
  then have "filter (\<lambda>x. fst k = fst x) kw1 = [k]" by (rule filter_same_key[OF assms(1)])
  moreover have "filter (\<lambda>x. fst k = fst x) (sort_key fst kw2) = [k]"
    by (rule filter_same_key[OF d3 k])
  ultimately show "filter (\<lambda>x. fst k = fst x) (sort_key fst kw2) = filter (\<lambda>x. fst k = fst x) kw1"
    by simp
next
  show "sorted (map fst (sort_key fst kw2))" by simp
qed

lemma insort_key_map_same_key:
  assumes "\<And>y. fst (g y) = fst y"
  shows "insort_key fst (g x) (map g ys) = map g (insort_key fst x ys)"
  by (induction ys) (simp_all add: assms)

lemma sort_key_map_same_key:
  assumes "\<And>y. fst (g y) = fst y"
  shows "sort_key fst (map g xs) = map g (sort_key fst xs)"
  by (induction xs) (simp_all add: insort_key_map_same_key[OF assms])

lemma join_Cons: "join sep (x # ys) = x @ concat (map (\<lambda>b. sep @ b) ys)"
  by (induction ys arbitrary: x) simp_all

lemma join_one_differs:
  assumes "join sep (A @ x # B) = join sep (A @ y # B)"
  shows "x = y"
proof (cases A)
  case Nil
  with assms show ?thesis by (simp add: join_Cons)
next
  case (Cons a A')
  with assms show ?thesis by (simp add: join_Cons)
qed

lemma set_param_other:
  "k \<notin> fst ` set A \<Longrightarrow> set_param k v A = A"
  unfolding set_param_def by (induction A) auto

lemma key_str_value_change:
  assumes d: "distinct (map fst kwargs)" and k: "k \<in> fst ` set kwargs"
    and ne: "py_str v \<noteq> py_str v'"
  shows "key_str prefix (set_param k v kwargs) \<noteq> key_str prefix (set_param k v' kwargs)"
proof
  assume eq: "key_str prefix (set_param k v kwargs) = key_str prefix (set_param k v' kwargs)"
  let ?S = "sort_key fst kwargs"
  let ?fmt = "\<lambda>(k, v). k @ ''='' @ py_str v"
  have keep: "\<And>w y. fst ((\<lambda>(k', v'). if k' = k then (k', w) else (k', v')) y) = fst y"
    by (auto split: prod.splits)
  have sorted_upd: "\<And>w. sort_key fst (set_param k w kwargs) = set_param k w ?S"
    unfolding set_param_def by (rule sort_key_map_same_key) (rule keep)
  have dS: "distinct (map fst ?S)"
  proof -
    have "mset (map fst ?S) = mset (map fst kwargs)" by (metis mset_map mset_sort)
    then show ?thesis using d by (metis mset_eq_imp_distinct_iff)
  qed
  from k have "k \<in> fst ` set ?S" by simp
  then obtain x where "(k, x) \<in> set ?S" by auto
  then obtain A B where S: "?S = A @ (k, x) # B" using split_list[of "(k, x)" ?S] by blast
  with dS have notA: "k \<notin> fst ` set A" and notB: "k \<notin> fst ` set B" by auto
  have upd: "\<And>w. set_param k w ?S = A @ (k, w) # B"
  proof -
    fix w
    have "set_param k w ?S = set_param k w A @ set_param k w [(k, x)] @ set_param k w B"
      unfolding S by (simp add: set_param_def)
    then show "set_param k w ?S = A @ (k, w) # B"
      by (simp add: set_param_other[OF notA] set_param_other[OF notB]) (simp add: set_param_def)
  qed
  from eq have "join '':'' (map ?fmt (A @ (k, v) # B)) = join '':'' (map ?fmt (A @ (k, v') # B))"
    by (simp add: key_str_def sorted_upd upd)
  then have "join '':'' (map ?fmt A @ ?fmt (k, v) # map ?fmt B)
           = join '':'' (map ?fmt A @ ?fmt (k, v') # map ?fmt B)" by simp
  then have "?fmt (k, v) = ?fmt (k, v')" by (rule join_one_differs)
  with ne show False by simp
qed

text \<open>
  Claim C3, as the code has it.  The cache key is the digest of a text made of the
  category name and the \<open>name=value\<close> pairs in the order of their names.  Two
  dictionaries with the same pairs, in any insertion order, give the same key.
  Replacing the value of one parameter by a different value of the same type (another
  string, another integer) changes the text that is digested, so the key changes
  unless the digest collides on the two texts.
\<close>

theorem cache_key_deterministic:
  "generate_key md5 prefix kwargs = md5 (key_str prefix kwargs)
   \<and> (distinct (map fst kwargs) \<and> mset kwargs = mset kwargs' \<longrightarrow>
        generate_key md5 prefix kwargs = generate_key md5 prefix kwargs')
   \<and> (distinct (map fst kwargs) \<and> k \<in> fst ` set kwargs \<and> same_type v v' \<and> v \<noteq> v' \<longrightarrow>
        key_str prefix (set_param k v kwargs) \<noteq> key_str prefix (set_param k v' kwargs)
        \<and> (generate_key md5 prefix (set_param k v kwargs) \<noteq> generate_key md5 prefix (set_param k v' kwargs)
            \<or> md5 (key_str prefix (set_param k v kwargs)) = md5 (key_str prefix (set_param k v' kwargs))))"
proof (intro conjI impI)
  show "generate_key md5 prefix kwargs = md5 (key_str prefix kwargs)"
    by (simp add: generate_key_def)
next
  assume "distinct (map fst kwargs) \<and> mset kwargs = mset kwargs'"
  then have "sort_key fst kwargs = sort_key fst kwargs'" by (simp add: sort_key_permutation)
  then show "generate_key md5 prefix kwargs = generate_key md5 prefix kwargs'"
    by (simp add: generate_key_def key_str_def)
next
  assume a: "distinct (map fst kwargs) \<and> k \<in> fst ` set kwargs \<and> same_type v v' \<and> v \<noteq> v'"
  then have "py_str v \<noteq> py_str v'" by (simp add: py_str_same_type)
  with a show "key_str prefix (set_param k v kwargs) \<noteq> key_str prefix (set_param k v' kwargs)"
    by (simp add: key_str_value_change)
next
  show "generate_key md5 prefix (set_param k v kwargs) \<noteq> generate_key md5 prefix (set_param k v' kwargs)
            \<or> md5 (key_str prefix (set_param k v kwargs)) = md5 (key_str prefix (set_param k v' kwargs))"
    by (simp add: generate_key_def)
qed

theorem cache_key_deterministic_witness:
  "distinct (map fst [(''exchange'', PStr ''binance''), (''symbol'', PStr ''BTC/USDT'')])
   \<and> mset [(''exchange'', PStr ''binance''), (''symbol'', PStr ''BTC/USDT'')]
       = mset [(''symbol'', PStr ''BTC/USDT''), (''exchange'', PStr ''binance'')]
   \<and> (\<forall>md5. generate_key md5 ''ticker'' [(''exchange'', PStr ''binance''), (''symbol'', PStr ''BTC/USDT'')]
            = generate_key md5 ''ticker'' [(''symbol'', PStr ''BTC/USDT''), (''exchange'', PStr ''binance'')])
   \<and> ''exchange'' \<in> fst ` set [(''exchange'', PStr ''binance''), (''symbol'', PStr ''BTC/USDT'')]
   \<and> same_type (PStr ''binance'') (PStr ''kraken'')
   \<and> PStr ''binance'' \<noteq> PStr ''kraken''
   \<and> key_str ''ticker'' (set_param ''exchange'' (PStr ''binance'')
          [(''exchange'', PStr ''binance''), (''symbol'', PStr ''BTC/USDT'')])
     \<noteq> key_str ''ticker'' (set_param ''exchange'' (PStr ''kraken'')
          [(''exchange'', PStr ''binance''), (''symbol'', PStr ''BTC/USDT'')])"
proof -
  let ?kw = "[(''exchange'', PStr ''binance''), (''symbol'', PStr ''BTC/USDT'')]"
  let ?kw' = "[(''symbol'', PStr ''BTC/USDT''), (''exchange'', PStr ''binance'')]"
  have h1: "distinct (map fst ?kw)" by simp
  have h2: "mset ?kw = mset ?kw'" by simp
  have h3: "''exchange'' \<in> fst ` set ?kw" by simp
  have h4: "same_type (PStr ''binance'') (PStr ''kraken'')" by simp
  have h5: "PStr ''binance'' \<noteq> PStr ''kraken''" by simp
  have c1: "\<forall>md5. generate_key md5 ''ticker'' ?kw = generate_key md5 ''ticker'' ?kw'"
  proof
    fix md5 :: "string \<Rightarrow> string"
    from cache_key_deterministic[of md5 "''ticker''" ?kw ?kw'] h1 h2
    show "generate_key md5 ''ticker'' ?kw = generate_key md5 ''ticker'' ?kw'" by blast
  qed
  have c2: "key_str ''ticker'' (set_param ''exchange'' (PStr ''binance'') ?kw)
     \<noteq> key_str ''ticker'' (set_param ''exchange'' (PStr ''kraken'') ?kw)"
    using cache_key_deterministic[of "\<lambda>t. t" "''ticker''" ?kw ?kw' "''exchange''"
        "PStr ''binance''" "PStr ''kraken''"] h1 h3 h4 h5 by blast
  show ?thesis by (intro conjI h1 h2 h3 h4 h5 c1 c2)
qed

text \<open>
  The values are rendered with \<open>str\<close>, so the integer 100 and the string \<open>100\<close> give the
  same text and the same key, whatever the digest.
\<close>

lemma str_int_100: "str_int 100 = ''100''"
  by code_simp

theorem cache_key_int_str_counterexample:
  "PInt 100 \<noteq> PStr ''100''
   \<and> key_str ''ohlcv'' (set_param ''limit'' (PInt 100) [(''limit'', PInt 5)])
     = key_str ''ohlcv'' (set_param ''limit'' (PStr ''100'') [(''limit'', PInt 5)])
   \<and> (\<forall>md5. generate_key md5 ''ohlcv'' [(''limit'', PInt 100)]
            = generate_key md5 ''ohlcv'' [(''limit'', PStr ''100'')])"
  by (simp add: generate_key_def key_str_def set_param_def str_int_100)

end
